theory Spec2Isabelle
  imports Complex_Main "HOL-Library.Multiset" "HOL-Library.Monad_Syntax"
begin

section \<open>Arrays, shapes and errors\<close>

text \<open>
  The notebooks compute on JAX arrays of 64-bit floats. An array of shape \<open>(n, d)\<close> is a
  list of \<open>n\<close> rows of \<open>d\<close> numbers, a batch is a list of such arrays. Floating-point
  numbers are idealised as real numbers: rounding and overflow are not modelled, and the
  infinities of IEEE 754 only in the section on coincident particles. The functions
  below raise only when an array has the wrong shape; a raise is the result \<open>None\<close>.
  The second argument \<open>dim\<close> of the source is written \<open>d\<close>.
\<close>

type_synonym configuration = "real list list"

definition has_shape :: "nat \<Rightarrow> nat \<Rightarrow> 'a list list \<Rightarrow> bool" where
  "has_shape n d x \<longleftrightarrow> length x = n \<and> list_all (\<lambda>r. length r = d) x"

definition has_shape3 :: "nat \<Rightarrow> nat \<Rightarrow> nat \<Rightarrow> 'a list list list \<Rightarrow> bool" where
  "has_shape3 B n d xs \<longleftrightarrow> length xs = B \<and> list_all (has_shape n d) xs"

text \<open>\<open>z.shape\<close> of a two-dimensional array and \<open>x.shape\<close> of a batch.\<close>

definition shape2 :: "'a list list \<Rightarrow> nat \<times> nat" where
  "shape2 z = (length z, case z of [] \<Rightarrow> 0 | r # _ \<Rightarrow> length r)"

definition shape3 :: "'a list list list \<Rightarrow> nat \<times> nat \<times> nat" where
  "shape3 xs = (length xs, case xs of [] \<Rightarrow> (0, 0) | x # _ \<Rightarrow> shape2 x)"

text \<open>\<open>x.reshape(-1)\<close>: the entries in row-major order.\<close>

definition flatten :: "'a list list \<Rightarrow> 'a list" where
  "flatten x = concat x"

text \<open>The rows of \<open>jnp.reshape(v, (n, d))\<close> for a flat \<open>v\<close> of \<open>n * d\<close> entries; a reshape
  to another size raises.\<close>

fun rows :: "nat \<Rightarrow> nat \<Rightarrow> 'a list \<Rightarrow> 'a list list" where
  "rows 0 d v = []"
| "rows (Suc n) d v = take d v # rows n d (drop d v)"

definition reshape_flat :: "'a list \<Rightarrow> nat \<Rightarrow> nat \<Rightarrow> 'a list list option" where
  "reshape_flat v n d = (if length v = n * d then Some (rows n d v) else None)"

definition reshape :: "'a list list \<Rightarrow> nat \<Rightarrow> nat \<Rightarrow> 'a list list option" where
  "reshape x n d = reshape_flat (flatten x) n d"

text \<open>\<open>jax.vmap\<close> over the leading axis: the function is applied to every element of
  the batch, and a raise at any element is a raise of the whole.\<close>

fun vmap :: "('a \<Rightarrow> 'b option) \<Rightarrow> 'a list \<Rightarrow> 'b list option" where
  "vmap f [] = Some []"
| "vmap f (a # as) = do { b \<leftarrow> f a; bs \<leftarrow> vmap f as; Some (b # bs) }"

text \<open>\<open>a.mean()\<close> and \<open>jnp.std(a)\<close> of a one-dimensional array (\<open>jnp.std\<close> with its
  default \<open>ddof=0\<close>: the square root of the mean squared deviation from the mean).\<close>

definition mean :: "real list \<Rightarrow> real" where
  "mean a = sum_list a / real (length a)"

definition std :: "real list \<Rightarrow> real" where
  "std a = sqrt (mean (map (\<lambda>v. \<bar>v - mean a\<bar>\<^sup>2) a))"

section \<open>The energy function\<close>

text \<open>
  \<^verbatim>\<open>
  def energy_fn(x, n, dim):
      i, j = jnp.triu_indices(n, k=1)
      rij = jnp.linalg.norm((jnp.reshape(x, (n, 1, dim)) - jnp.reshape(x, (1, n, dim)))[i,j], axis=-1)
      return jnp.sum(x**2) + jnp.sum(1/rij)

  batch_energy = jax.vmap(energy_fn, (0, None, None), 0)
  \<close>
\<close>

text \<open>\<open>jnp.triu_indices(n, k=1)\<close>: the index pairs strictly above the diagonal of an
  \<open>n \<times> n\<close> matrix, row by row.\<close>

definition triu_indices :: "nat \<Rightarrow> (nat \<times> nat) list" where
  "triu_indices n = concat (map (\<lambda>i. map (\<lambda>j. (i, j)) [Suc i..<n]) [0..<n])"

text \<open>\<open>jnp.linalg.norm(v, axis=-1)\<close>: the Euclidean norm along the last axis.\<close>

definition norm_last :: "real list \<Rightarrow> real" where
  "norm_last v = sqrt (\<Sum>c\<leftarrow>v. \<bar>c\<bar>\<^sup>2)"

text \<open>The broadcast difference of shape \<open>(n, n, d)\<close>: entry \<open>[i, j]\<close> is row \<open>i\<close> minus
  row \<open>j\<close>.\<close>

definition pair_diff :: "real list list \<Rightarrow> real list list list" where
  "pair_diff xr = map (\<lambda>a. map (\<lambda>b. map2 (-) a b) xr) xr"

definition energy_fn :: "configuration \<Rightarrow> nat \<Rightarrow> nat \<Rightarrow> real option" where
  "energy_fn x n d = do {
     let ij = triu_indices n;
     xr \<leftarrow> reshape x n d;
     let rij = map (\<lambda>(i, j). norm_last (pair_diff xr ! i ! j)) ij;
     Some ((\<Sum>c\<leftarrow>flatten x. c\<^sup>2) + (\<Sum>r\<leftarrow>rij. 1 / r))
   }"

definition batch_energy :: "configuration list \<Rightarrow> nat \<Rightarrow> nat \<Rightarrow> real list option" where
  "batch_energy xs n d = vmap (\<lambda>x. energy_fn x n d) xs"

text \<open>For stating the results: the Euclidean distance of two particle positions, and the
  translation of every particle by the same vector.\<close>

definition euclid :: "real list \<Rightarrow> real list \<Rightarrow> real" where
  "euclid a b = sqrt (\<Sum>k<min (length a) (length b). (a ! k - b ! k)\<^sup>2)"

definition translate :: "real list \<Rightarrow> configuration \<Rightarrow> configuration" where
  "translate t x = map (\<lambda>r. map2 (+) r t) x"

section \<open>Pseudo-random numbers\<close>

text \<open>
  The functions of \<open>jax.random\<close> are deterministic functions of the key they are given.
  They are parameters of the model: \<open>split R key num i\<close> is entry \<open>i\<close> of
  \<open>jax.random.split(key, num)\<close>, and \<open>normal R key shape idx\<close> and
  \<open>uniform R key shape idx\<close> are the entries at index \<open>idx\<close> of the arrays
  \<open>jax.random.normal(key, shape)\<close> and \<open>jax.random.uniform(key, shape)\<close>. The arrays are
  tabulated from the entries, so they have the requested shape.
\<close>

record 'k jax_random =
  split :: "'k \<Rightarrow> nat \<Rightarrow> nat \<Rightarrow> 'k"
  normal :: "'k \<Rightarrow> nat list \<Rightarrow> nat list \<Rightarrow> real"
  uniform :: "'k \<Rightarrow> nat list \<Rightarrow> nat list \<Rightarrow> real"

definition normal3 :: "'k jax_random \<Rightarrow> 'k \<Rightarrow> nat \<times> nat \<times> nat \<Rightarrow> configuration list" where
  "normal3 R key shp =
     (case shp of (B, n, d) \<Rightarrow>
        map (\<lambda>b. map (\<lambda>i. map (\<lambda>k. normal R key [B, n, d] [b, i, k]) [0..<d]) [0..<n]) [0..<B])"

definition uniform1 :: "'k jax_random \<Rightarrow> 'k \<Rightarrow> nat \<Rightarrow> real list" where
  "uniform1 R key B = map (\<lambda>b. uniform R key [B] [b]) [0..<B]"

section \<open>The Metropolis sampler\<close>

text \<open>
  \<^verbatim>\<open>
  def mcmc(logp_fn, x_init, key, mc_steps, mc_width):
      def step(i, state):
          x, logp, key, num_accepts = state
          key, key_proposal, key_accept = jax.random.split(key, 3)

          x_proposal = x + mc_width * jax.random.normal(key_proposal, x.shape)
          logp_proposal = logp_fn(x_proposal)

          ratio = jnp.exp((logp_proposal - logp))
          accept = jax.random.uniform(key_accept, ratio.shape) < ratio

          x_new = jnp.where(accept[:, None, None], x_proposal, x)
          logp_new = jnp.where(accept, logp_proposal, logp)
          num_accepts += accept.sum()
          return x_new, logp_new, key, num_accepts

      logp_init = logp_fn(x_init)

      x, logp, key, num_accepts = jax.lax.fori_loop(0, mc_steps, step, (x_init, logp_init, key, 0.))
      batch = x.shape[0]
      accept_rate = num_accepts / (mc_steps * batch)
      return x, accept_rate
  \<close>
  The state of the chains is the tuple \<open>(x, logp, key, num_accepts)\<close> of the source: the
  positions of every chain of the batch, the stored log-density of every chain, the key
  and the count of acceptances.
\<close>

type_synonym 'k chain_state = "configuration list \<times> real list \<times> 'k \<times> real"

text \<open>\<open>jax.lax.fori_loop(lower, upper, body_fun, init_val)\<close>.\<close>

function fori_loop :: "nat \<Rightarrow> nat \<Rightarrow> (nat \<Rightarrow> 's \<Rightarrow> 's option) \<Rightarrow> 's \<Rightarrow> 's option" where
  "fori_loop lower upper body_fun val =
     (if lower < upper
      then do { val' \<leftarrow> body_fun lower val; fori_loop (Suc lower) upper body_fun val' }
      else Some val)"
  by pat_completeness auto
termination
  by (relation "measure (\<lambda>(lower, upper, body_fun, val). upper - lower)") auto

declare fori_loop.simps [simp del]

text \<open>\<open>jnp.where(accept, a, b)\<close> along the batch axis.\<close>

definition where_batch :: "bool list \<Rightarrow> 'a list \<Rightarrow> 'a list \<Rightarrow> 'a list" where
  "where_batch accept a b = map (\<lambda>(c, u, v). if c then u else v) (zip accept (zip a b))"

definition step ::
  "'k jax_random \<Rightarrow> (configuration list \<Rightarrow> real list option) \<Rightarrow> real
     \<Rightarrow> nat \<Rightarrow> 'k chain_state \<Rightarrow> 'k chain_state option" where
  "step R logp_fn mc_width i state =
     (case state of (x, logp, key, num_accepts) \<Rightarrow> do {
        let key' = split R key 3 0;
        let key_proposal = split R key 3 1;
        let key_accept = split R key 3 2;
        let x_proposal =
          map2 (map2 (map2 (\<lambda>a e. a + mc_width * e))) x (normal3 R key_proposal (shape3 x));
        logp_proposal \<leftarrow> logp_fn x_proposal;
        let ratio = map2 (\<lambda>p l. exp (p - l)) logp_proposal logp;
        let accept = map2 (\<lambda>u r. u < r) (uniform1 R key_accept (length ratio)) ratio;
        let x_new = where_batch accept x_proposal x;
        let logp_new = where_batch accept logp_proposal logp;
        let num_accepts = num_accepts + real (length (filter id accept));
        Some (x_new, logp_new, key', num_accepts)
      })"

definition mcmc ::
  "'k jax_random \<Rightarrow> (configuration list \<Rightarrow> real list option) \<Rightarrow> configuration list \<Rightarrow> 'k
     \<Rightarrow> nat \<Rightarrow> real \<Rightarrow> (configuration list \<times> real) option" where
  "mcmc R logp_fn x_init key mc_steps mc_width = do {
     logp_init \<leftarrow> logp_fn x_init;
     (x, logp, key, num_accepts) \<leftarrow>
       fori_loop 0 mc_steps (step R logp_fn mc_width) (x_init, logp_init, key, 0);
     let batch = length x;
     let accept_rate = num_accepts / (real mc_steps * real batch);
     Some (x, accept_rate)
   }"

text \<open>
  The target log-density of the sampling notebook (its \<open>logp\<close>):
  \<^verbatim>\<open>
  @partial(jax.vmap, in_axes=(None, 0, None, None))
  def logp(beta, x, n, dim):
      return -beta * energy_fn(x, n, dim)
  \<close>
\<close>

definition mcmc_logp :: "real \<Rightarrow> configuration list \<Rightarrow> nat \<Rightarrow> nat \<Rightarrow> real list option" where
  "mcmc_logp beta x n d = vmap (\<lambda>x. do { e \<leftarrow> energy_fn x n d; Some (- beta * e) }) x"

text \<open>
  The outer loop of the sampling notebook:
  \<^verbatim>\<open>
  for ii in range(iters):
      key, key_mcmc = jax.random.split(key, 2)
      logp_fn = lambda x: logp(beta, x, n, dim)
      x, acc = mcmc(logp_fn, x, key_mcmc, mc_steps, mc_width)
      energy = jax.vmap(energy_fn, (0, None, None), 0)(x, n, dim)
      E = jnp.mean(energy)
      print("step: %.3d    E: %.6f    acc: %.3f    mc_width: %.3f" %(ii, E, acc, mc_width))
      if acc > 0.525: mc_width *= 1.05
      if acc < 0.475: mc_width *= 0.95
  \<close>
  \<open>adapt_width\<close> is the pair of conditional updates that ends the body; the loop returns
  its final variables and the printed triples \<open>(E, acc, mc_width)\<close>.
\<close>

definition adapt_width :: "real \<Rightarrow> real \<Rightarrow> real" where
  "adapt_width acc mc_width =
     (let mc_width = (if acc > 0.525 then mc_width * 1.05 else mc_width);
          mc_width = (if acc < 0.475 then mc_width * 0.95 else mc_width)
      in mc_width)"

fun sampling_loop ::
  "'k jax_random \<Rightarrow> real \<Rightarrow> nat \<Rightarrow> nat \<Rightarrow> nat \<Rightarrow> nat \<Rightarrow> configuration list \<times> 'k \<times> real
     \<Rightarrow> ((configuration list \<times> 'k \<times> real) \<times> (real \<times> real \<times> real) list) option" where
  "sampling_loop R beta n d mc_steps 0 (x, key, mc_width) = Some ((x, key, mc_width), [])"
| "sampling_loop R beta n d mc_steps (Suc iters) (x, key, mc_width) = do {
     let key' = split R key 2 0;
     let key_mcmc = split R key 2 1;
     let logp_fn = (\<lambda>x. mcmc_logp beta x n d);
     (x, acc) \<leftarrow> mcmc R logp_fn x key_mcmc mc_steps mc_width;
     energy \<leftarrow> batch_energy x n d;
     let E = mean energy;
     (final, printed) \<leftarrow>
       sampling_loop R beta n d mc_steps iters (x, key', adapt_width acc mc_width);
     Some (final, (E, acc, mc_width) # printed)
   }"

section \<open>The change-of-variables density\<close>

text \<open>
  \<^verbatim>\<open>
  def make_logp(flow):
      def logp(z, params):
          n, dim = z.shape
          x = flow.apply(params, None, z)
          logqz = jnp.sum(jax.scipy.stats.norm.logpdf(z))

          z_flatten = z.reshape(-1)
          flow_flatten = lambda z: flow.apply(params, None, z.reshape(n, dim)).reshape(-1)
          jac = jax.jacfwd(flow_flatten)(z_flatten)
          _, logjacdet = jnp.linalg.slogdet(jac)

          logpx = logqz - logjacdet
          return logpx, logqz, logjacdet, x
      return logp

  logp_novmap = make_logp(flow)
  logp = jax.vmap(logp_novmap, (0, None), (0, 0, 0, 0))
  \<close>
  The coordinate map \<open>flow.apply\<close> and the differentiation \<open>jax.jacfwd\<close> are parameters
  (\<open>flow_apply\<close>, \<open>jacfwd\<close>). The library functions \<open>norm.logpdf\<close> and \<open>slogdet\<close> are
  modelled by what they compute: \<open>-(log (2 pi) + v^2) / 2\<close>, and the sign and the logarithm
  of the absolute value of the determinant of a square matrix (a matrix that is not square
  raises). The batched \<open>logp\<close> of this notebook is \<open>logp_flow\<close>, since \<open>logp\<close> is also the
  name of the stored log-density in the state of the sampler.
\<close>

definition norm_logpdf :: "real \<Rightarrow> real" where
  "norm_logpdf v = - (ln (2 * pi) + v\<^sup>2) / 2"

text \<open>The determinant, expanded along the first row.\<close>

function det :: "real list list \<Rightarrow> real" where
  "det [] = 1"
| "det (r # rs) =
     (\<Sum>j\<leftarrow>[0..<length r]. (- 1) ^ j * r ! j * det (map (\<lambda>row. take j row @ drop (Suc j) row) rs))"
  by pat_completeness auto
termination
  by (relation "measure length") auto

definition slogdet :: "real list list \<Rightarrow> (real \<times> real) option" where
  "slogdet a =
     (if list_all (\<lambda>r. length r = length a) a then Some (sgn (det a), ln \<bar>det a\<bar>) else None)"

definition flow_flatten ::
  "('p \<Rightarrow> configuration \<Rightarrow> configuration option) \<Rightarrow> 'p \<Rightarrow> nat \<Rightarrow> nat
     \<Rightarrow> real list \<Rightarrow> real list option" where
  "flow_flatten flow_apply params n d z = do {
     zr \<leftarrow> reshape_flat z n d;
     x \<leftarrow> flow_apply params zr;
     Some (flatten x)
   }"

definition logp_novmap ::
  "('p \<Rightarrow> configuration \<Rightarrow> configuration option)
     \<Rightarrow> ((real list \<Rightarrow> real list option) \<Rightarrow> real list \<Rightarrow> real list list option)
     \<Rightarrow> configuration \<Rightarrow> 'p \<Rightarrow> (real \<times> real \<times> real \<times> configuration) option" where
  "logp_novmap flow_apply jacfwd z params =
     (case shape2 z of (n, d) \<Rightarrow> do {
        x \<leftarrow> flow_apply params z;
        let logqz = (\<Sum>c\<leftarrow>flatten z. norm_logpdf c);
        let z_flatten = flatten z;
        jac \<leftarrow> jacfwd (flow_flatten flow_apply params n d) z_flatten;
        (sign, logjacdet) \<leftarrow> slogdet jac;
        let logpx = logqz - logjacdet;
        Some (logpx, logqz, logjacdet, x)
      })"

definition logp_flow ::
  "('p \<Rightarrow> configuration \<Rightarrow> configuration option)
     \<Rightarrow> ((real list \<Rightarrow> real list option) \<Rightarrow> real list \<Rightarrow> real list list option)
     \<Rightarrow> configuration list \<Rightarrow> 'p
     \<Rightarrow> (real list \<times> real list \<times> real list \<times> configuration list) option" where
  "logp_flow flow_apply jacfwd z params = do {
     rs \<leftarrow> vmap (\<lambda>zb. logp_novmap flow_apply jacfwd zb params) z;
     Some (map (\<lambda>(logpx, logqz, logjacdet, x). logpx) rs,
           map (\<lambda>(logpx, logqz, logjacdet, x). logqz) rs,
           map (\<lambda>(logpx, logqz, logjacdet, x). logjacdet) rs,
           map (\<lambda>(logpx, logqz, logjacdet, x). x) rs)
   }"

section \<open>The variational objective\<close>

text \<open>
  \<^verbatim>\<open>
  def make_loss(logp, batch, n, dim, beta):
      def observable_and_lossfn(params, z):
          logpx, _, logjacdet, x = logp(z, params)

          Eloc = batch_energy(x, n, dim)
          Floc = logpx / beta + Eloc

          F_mean, F_std = Floc.mean(), jnp.std(Floc)/jnp.sqrt(batch)
          E_mean, E_std = Eloc.mean(), jnp.std(Eloc)/jnp.sqrt(batch)
          S_mean, S_std = -logpx.mean(), jnp.std(-logpx)/jnp.sqrt(batch)
          observable = (F_mean, F_std, E_mean, E_std, S_mean, S_std, x)

          gradf_theta = jnp.mean( -logjacdet / beta + Eloc )
          return gradf_theta, observable
      return observable_and_lossfn
  \<close>
  The tuple \<open>observable\<close> is a record with the names of its components.
\<close>

record observable =
  F_mean :: real
  F_std :: real
  E_mean :: real
  E_std :: real
  S_mean :: real
  S_std :: real
  x_out :: "configuration list"

definition observable_and_lossfn ::
  "(configuration list \<Rightarrow> 'p
      \<Rightarrow> (real list \<times> real list \<times> real list \<times> configuration list) option)
     \<Rightarrow> nat \<Rightarrow> nat \<Rightarrow> nat \<Rightarrow> real \<Rightarrow> 'p \<Rightarrow> configuration list \<Rightarrow> (real \<times> observable) option" where
  "observable_and_lossfn logp_fn batch n d beta params z = do {
     (logpx, logqz, logjacdet, x) \<leftarrow> logp_fn z params;
     Eloc \<leftarrow> batch_energy x n d;
     let Floc = map2 (\<lambda>p e. p / beta + e) logpx Eloc;
     let observable = \<lparr>
       F_mean = mean Floc, F_std = std Floc / sqrt (real batch),
       E_mean = mean Eloc, E_std = std Eloc / sqrt (real batch),
       S_mean = - mean logpx, S_std = std (map uminus logpx) / sqrt (real batch),
       x_out = x\<rparr>;
     let gradf_theta = mean (map2 (\<lambda>j e. - j / beta + e) logjacdet Eloc);
     Some (gradf_theta, observable)
   }"

section \<open>The training loop\<close>

text \<open>
  \<^verbatim>\<open>
  loss_history = []
  for i in range(5000):
      key, subkey = jax.random.split(key)

      z = jax.random.normal(key, (batch, n, dim))
      params, opt_state, datas = update(params, opt_state, z)

      F_mean, F_std, E_mean, E_std, S_mean, S_std, x = datas[1]
      loss_history.append(jnp.array([F_mean, F_std, E_mean, E_std, S_mean, S_std]))
  \<close>
  The optimizer step \<open>update\<close> (differentiation of \<open>observable_and_lossfn\<close> and an optax
  update) is a parameter; \<open>shp\<close> is the shape \<open>(batch, n, dim)\<close>. Beside the final variables
  the model returns the calls of \<open>jax.random\<close> in the order the loop makes them, each with
  the key it is given.
\<close>

datatype 'k random_call = Split 'k | Normal 'k

fun training_loop ::
  "'k jax_random \<Rightarrow> ('p \<Rightarrow> 'o \<Rightarrow> configuration list \<Rightarrow> 'p \<times> 'o \<times> real \<times> observable)
     \<Rightarrow> nat \<times> nat \<times> nat \<Rightarrow> nat \<Rightarrow> 'k \<times> 'p \<times> 'o \<times> real list list
     \<Rightarrow> ('k \<times> 'p \<times> 'o \<times> real list list) \<times> 'k random_call list" where
  "training_loop R update shp 0 (key, params, opt_state, loss_history) =
     ((key, params, opt_state, loss_history), [])"
| "training_loop R update shp (Suc iters) (key, params, opt_state, loss_history) =
     (let key' = split R key 2 0;
          subkey = split R key 2 1;
          z = normal3 R key' shp;
          (params', opt_state', datas) = update params opt_state z;
          obs = snd datas;
          loss_history' = loss_history
            @ [[F_mean obs, F_std obs, E_mean obs, E_std obs, S_mean obs, S_std obs]];
          (final, calls) = training_loop R update shp iters (key', params', opt_state', loss_history')
      in (final, Split key # Normal key' # calls))"

section \<open>Coincident particles: the special values of IEEE 754\<close>

text \<open>
  Two particles at the same position make \<open>rij\<close> zero and \<open>1/rij\<close> a division by zero, which
  the real numbers do not model. Here a float is a real number or one of the special
  values \<open>+inf\<close>, \<open>-inf\<close>, \<open>nan\<close> of IEEE 754, and the operations that \<open>energy_fn\<close> uses
  follow the standard on the special values: arithmetic on finite values is exact
  (rounding, overflow and the sign of zero are not modelled; the zero that the norm returns
  is \<open>+0\<close>), a positive number divided by zero is \<open>+inf\<close>, zero divided by zero and
  \<open>inf - inf\<close> are \<open>nan\<close>, and \<open>nan\<close> propagates. \<open>energy_fn_ieee\<close> is \<open>energy_fn\<close> in this
  arithmetic.
\<close>

datatype ieee = Finite real | PInf | NInf | NaN

fun ieee_neg :: "ieee \<Rightarrow> ieee" where
  "ieee_neg (Finite a) = Finite (- a)"
| "ieee_neg PInf = NInf"
| "ieee_neg NInf = PInf"
| "ieee_neg NaN = NaN"

fun ieee_add :: "ieee \<Rightarrow> ieee \<Rightarrow> ieee" where
  "ieee_add NaN b = NaN"
| "ieee_add a NaN = NaN"
| "ieee_add (Finite a) (Finite b) = Finite (a + b)"
| "ieee_add PInf NInf = NaN"
| "ieee_add NInf PInf = NaN"
| "ieee_add PInf b = PInf"
| "ieee_add a PInf = PInf"
| "ieee_add NInf b = NInf"
| "ieee_add a NInf = NInf"

definition ieee_sub :: "ieee \<Rightarrow> ieee \<Rightarrow> ieee" where
  "ieee_sub a b = ieee_add a (ieee_neg b)"

fun ieee_square :: "ieee \<Rightarrow> ieee" where
  "ieee_square (Finite a) = Finite (a\<^sup>2)"
| "ieee_square PInf = PInf"
| "ieee_square NInf = PInf"
| "ieee_square NaN = NaN"

fun ieee_sqrt :: "ieee \<Rightarrow> ieee" where
  "ieee_sqrt (Finite a) = (if 0 \<le> a then Finite (sqrt a) else NaN)"
| "ieee_sqrt PInf = PInf"
| "ieee_sqrt NInf = NaN"
| "ieee_sqrt NaN = NaN"

fun ieee_div :: "ieee \<Rightarrow> ieee \<Rightarrow> ieee" where
  "ieee_div NaN b = NaN"
| "ieee_div a NaN = NaN"
| "ieee_div (Finite a) (Finite b) =
     (if b \<noteq> 0 then Finite (a / b)
      else if 0 < a then PInf else if a < 0 then NInf else NaN)"
| "ieee_div (Finite a) b = Finite 0"
| "ieee_div a (Finite b) =
     (if (a = PInf) = (0 \<le> b) then PInf else NInf)"
| "ieee_div a b = NaN"

fun ieee_sum :: "ieee list \<Rightarrow> ieee" where
  "ieee_sum [] = Finite 0"
| "ieee_sum (a # as) = ieee_add a (ieee_sum as)"

definition ieee_norm_last :: "ieee list \<Rightarrow> ieee" where
  "ieee_norm_last v = ieee_sqrt (ieee_sum (map ieee_square v))"

definition ieee_pair_diff :: "ieee list list \<Rightarrow> ieee list list list" where
  "ieee_pair_diff xr = map (\<lambda>a. map (\<lambda>b. map2 ieee_sub a b) xr) xr"

definition energy_fn_ieee :: "ieee list list \<Rightarrow> nat \<Rightarrow> nat \<Rightarrow> ieee option" where
  "energy_fn_ieee x n d = do {
     let ij = triu_indices n;
     xr \<leftarrow> reshape x n d;
     let rij = map (\<lambda>(i, j). ieee_norm_last (ieee_pair_diff xr ! i ! j)) ij;
     Some (ieee_add (ieee_sum (map ieee_square (flatten x)))
                    (ieee_sum (map (\<lambda>r. ieee_div (Finite 1) r) rij)))
   }"

section \<open>Example inputs\<close>

text \<open>A generator whose normal draws are all 1 and whose uniform draws are all 1/2, and a
  batch of two chains of two particles in the plane.\<close>

definition example_random :: "nat jax_random" where
  "example_random = \<lparr>split = (\<lambda>key num i. num * key + i + 1), normal = (\<lambda>key shp idx. 1),
     uniform = (\<lambda>key shp idx. 1 / 2)\<rparr>"

definition example_batch :: "configuration list" where
  "example_batch = [[[0, 0], [3, 4]], [[- 1, - 1], [- 4, - 5]]]"

text \<open>A flow that scales every coordinate by its parameter, the Jacobian of a linear map
  (its columns are the images of the unit vectors), and a latent batch of two samples.\<close>

definition example_flow :: "real \<Rightarrow> configuration \<Rightarrow> configuration option" where
  "example_flow params z = Some (map (map (\<lambda>c. params * c)) z)"

definition unit_vector :: "nat \<Rightarrow> nat \<Rightarrow> real list" where
  "unit_vector m j = map (\<lambda>i. if i = j then 1 else 0) [0..<m]"

definition linear_jacfwd :: "(real list \<Rightarrow> real list option) \<Rightarrow> real list \<Rightarrow> real list list option" where
  "linear_jacfwd f v = do {
     cols \<leftarrow> vmap f (map (unit_vector (length v)) [0..<length v]);
     Some (map (\<lambda>i. map (\<lambda>col. col ! i) cols) [0..<length v])
   }"

definition example_latent :: "configuration list" where
  "example_latent = [[[0, 0], [3, 4]], [[0, 0], [0, 1]]]"

definition example_update ::
  "unit \<Rightarrow> unit \<Rightarrow> configuration list \<Rightarrow> unit \<times> unit \<times> real \<times> observable" where
  "example_update params opt_state z =
     (params, opt_state, 0,
      \<lparr>F_mean = 0, F_std = 0, E_mean = 0, E_std = 0, S_mean = 0, S_std = 0, x_out = z\<rparr>)"


section \<open>Shapes\<close>

lemma rows_concat: "has_shape n d x \<Longrightarrow> rows n d (concat x) = x"
  by (induction x arbitrary: n) (auto simp: has_shape_def)

lemma length_concat_shape: "has_shape n d x \<Longrightarrow> length (concat x) = n * d"
  by (induction x arbitrary: n) (auto simp: has_shape_def)

lemma reshape_id: "has_shape n d x \<Longrightarrow> reshape x n d = Some x"
  by (simp add: reshape_def reshape_flat_def flatten_def rows_concat length_concat_shape)

lemma has_shape_nth: "has_shape n d x \<Longrightarrow> i < n \<Longrightarrow> length (x ! i) = d"
  by (simp add: has_shape_def list_all_length)

section \<open>The pairs of the interaction term\<close>

lemma set_triu_indices: "set (triu_indices n) = {(i, j). i < j \<and> j < n}"
proof -
  have "(a, b) \<in> set (triu_indices n) \<longleftrightarrow> a < b \<and> b < n" for a b
    by (force simp: triu_indices_def)
  then show ?thesis by auto
qed

lemma distinct_triu_indices: "distinct (triu_indices n)"
  unfolding triu_indices_def
proof (rule distinct_concat)
  have "inj_on (\<lambda>i. map (Pair i) [Suc i..<n]) {0..<n}"
  proof (rule inj_onI)
    fix x y
    assume xy: "x \<in> {0..<n}" "y \<in> {0..<n}"
      and "map (Pair x) [Suc x..<n] = map (Pair y) [Suc y..<n]"
    then have "length (map (Pair x) [Suc x..<n]) = length (map (Pair y) [Suc y..<n])"
      by simp
    with xy show "x = y" by simp
  qed
  then show "distinct (map (\<lambda>i. map (Pair i) [Suc i..<n]) [0..<n])"
    by (simp add: distinct_map)
qed (auto simp: distinct_map inj_on_def)

lemma length_triu_indices: "length (triu_indices n) = n * (n - 1) div 2"
proof -
  have "length (triu_indices n) = (\<Sum>i\<leftarrow>[0..<n]. n - Suc i)"
    by (simp add: triu_indices_def length_concat comp_def)
  also have "\<dots> = (\<Sum>i<n. n - Suc i)"
    by (simp add: interv_sum_list_conv_sum_set_nat atLeast0LessThan)
  also have "\<dots> = (\<Sum>i<n. i)"
    by (rule sum.nat_diff_reindex)
  also have "\<dots> = n * (n - 1) div 2"
    using Sum_Ico_nat[of 0 n] by (simp add: atLeast0LessThan)
  finally show ?thesis .
qed

lemma norm_last_diff:
  "length a = length b \<Longrightarrow> norm_last (map2 (-) a b) = euclid a b"
  by (simp add: norm_last_def euclid_def sum_list_sum_nth atLeast0LessThan)

lemma pair_diff_nth:
  "i < length xr \<Longrightarrow> j < length xr \<Longrightarrow> pair_diff xr ! i ! j = map2 (-) (xr ! i) (xr ! j)"
  by (simp add: pair_diff_def)

lemma sum_squares_flatten: "(\<Sum>c\<leftarrow>flatten x. c\<^sup>2) = (\<Sum>r\<leftarrow>x. \<Sum>c\<leftarrow>r. c\<^sup>2)"
  by (induction x) (simp_all add: flatten_def)

lemma energy_fn_list:
  assumes "has_shape n d x"
  shows "energy_fn x n d =
    Some ((\<Sum>r\<leftarrow>x. \<Sum>c\<leftarrow>r. c\<^sup>2) + (\<Sum>(i, j)\<leftarrow>triu_indices n. 1 / euclid (x ! i) (x ! j)))"
proof -
  have len: "length x = n" using assms by (simp add: has_shape_def)
  have "norm_last (pair_diff x ! i ! j) = euclid (x ! i) (x ! j)"
    if "(i, j) \<in> set (triu_indices n)" for i j
  proof -
    from that have "i < n" "j < n" by (auto simp: set_triu_indices)
    then show ?thesis
      using assms len by (simp add: pair_diff_nth norm_last_diff has_shape_nth)
  qed
  then have "(\<Sum>r\<leftarrow>map (\<lambda>(i, j). norm_last (pair_diff x ! i ! j)) (triu_indices n). 1 / r)
      = (\<Sum>(i, j)\<leftarrow>triu_indices n. 1 / euclid (x ! i) (x ! j))"
    unfolding map_map by (intro arg_cong[where f = sum_list] map_cong) auto
  then show ?thesis
    unfolding energy_fn_def reshape_id[OF assms] Let_def sum_squares_flatten by simp
qed

lemma sqrt_25: "sqrt 25 = 5"
  using real_sqrt_abs[of 5] by simp

lemma sqrt_16: "sqrt 16 = 4"
  using real_sqrt_abs[of 4] by simp

lemma sqrt_9: "sqrt 9 = 3"
  using real_sqrt_abs[of 3] by simp

text \<open>
  C1. For a configuration \<open>x\<close> of \<open>n\<close> particles in \<open>d\<close> dimensions whose pairwise distances
  are all nonzero, \<open>energy_fn\<close> returns the sum of the squares of all coordinates plus the
  sum, over the unordered pairs \<open>i < j < n\<close>, of the reciprocal Euclidean distance of
  particles \<open>i\<close> and \<open>j\<close>. There are \<open>n (n - 1) / 2\<close> such pairs, the enumeration
  \<open>triu_indices\<close> lists each of them once and never a pair \<open>(i, i)\<close>. (The theorem holds
  for every \<open>n\<close>, so for \<open>n \<ge> 2\<close>.)
\<close>

theorem energy_fn_confinement_plus_pairs:
  assumes "has_shape n d x"
    and "\<forall>i j. i < j \<and> j < n \<longrightarrow> euclid (x ! i) (x ! j) \<noteq> 0"
  shows "energy_fn x n d =
      Some ((\<Sum>r\<leftarrow>x. \<Sum>c\<leftarrow>r. c\<^sup>2)
         + (\<Sum>(i, j)\<in>{(i, j). i < j \<and> j < n}. 1 / euclid (x ! i) (x ! j)))
    \<and> card {(i, j). i < j \<and> j < n} = n * (n - 1) div 2
    \<and> set (triu_indices n) = {(i, j). i < j \<and> j < n}
    \<and> distinct (triu_indices n)
    \<and> (\<forall>i. (i, i) \<notin> set (triu_indices n))"
proof -
  have "(\<Sum>(i, j)\<leftarrow>triu_indices n. 1 / euclid (x ! i) (x ! j))
      = (\<Sum>(i, j)\<in>{(i, j). i < j \<and> j < n}. 1 / euclid (x ! i) (x ! j))"
    using sum_list_distinct_conv_sum_set[OF distinct_triu_indices,
        of "\<lambda>(i, j). 1 / euclid (x ! i) (x ! j)" n]
    by (simp add: set_triu_indices)
  moreover have "card {(i, j). i < j \<and> j < n} = n * (n - 1) div 2"
    using distinct_card[OF distinct_triu_indices, of n]
    by (simp add: set_triu_indices length_triu_indices)
  ultimately show ?thesis
    by (simp add: energy_fn_list[OF assms(1)] set_triu_indices distinct_triu_indices)
qed

lemma example_shape: "has_shape 3 2 [[0, 0], [3, 4], [0, 4::real]]"
  by (simp add: has_shape_def)

lemma example_distances:
  "\<forall>i j. i < j \<and> j < 3 \<longrightarrow>
     euclid ([[0, 0], [3, 4], [0, 4::real]] ! i) ([[0, 0], [3, 4], [0, 4]] ! j) \<noteq> 0"
proof (intro allI impI)
  fix i j :: nat
  assume "i < j \<and> j < 3"
  then consider "i = 0 \<and> j = 1" | "i = 0 \<and> j = 2" | "i = 1 \<and> j = 2"
    by linarith
  then show "euclid ([[0, 0], [3, 4], [0, 4::real]] ! i) ([[0, 0], [3, 4], [0, 4]] ! j) \<noteq> 0"
    by cases (simp_all add: euclid_def lessThan_Suc numeral_2_eq_2)
qed

lemma example_energy: "energy_fn [[0, 0], [3, 4], [0, 4]] 3 2 = Some (2507 / 60)"
  by (simp add: energy_fn_def reshape_def reshape_flat_def flatten_def triu_indices_def
      pair_diff_def norm_last_def numeral_3_eq_3 numeral_2_eq_2 upt_rec sqrt_25 sqrt_16 sqrt_9)

lemma example_euclid:
  "euclid [0, 0] [3, 4] = 5 \<and> euclid [0, 0] [0, 4] = 4 \<and> euclid [3, 4] [0, 4] = 3"
  by (simp add: euclid_def lessThan_Suc numeral_2_eq_2 sqrt_25 sqrt_16 sqrt_9)

theorem energy_fn_confinement_plus_pairs_witness:
  "has_shape 3 2 [[0, 0], [3, 4], [0, 4::real]]
   \<and> euclid [0, 0] [3, 4] = 5 \<and> euclid [0, 0] [0, 4] = 4 \<and> euclid [3, 4] [0, 4] = 3
   \<and> energy_fn [[0, 0], [3, 4], [0, 4]] 3 2 = Some (2507 / 60)
   \<and> (\<Sum>r\<leftarrow>[[0, 0], [3, 4], [0, 4::real]]. \<Sum>c\<leftarrow>r. c\<^sup>2)
       + (\<Sum>(i, j)\<in>{(i, j). i < j \<and> j < 3}.
            1 / euclid ([[0, 0], [3, 4], [0, 4::real]] ! i) ([[0, 0], [3, 4], [0, 4]] ! j))
     = 2507 / 60
   \<and> card {(i, j). i < j \<and> j < (3::nat)} = 3"
  using energy_fn_confinement_plus_pairs[OF example_shape example_distances]
    example_shape example_energy example_euclid
  by simp

section \<open>Symmetries of the energy\<close>

lemma upt_0_Suc: "[0..<Suc n] = 0 # map Suc [0..<n]"
  by (metis map_Suc_upt upt_conv_Cons zero_less_Suc)

lemma inner_shift: "map (Pair (Suc i)) [Suc (Suc i)..<Suc n]
      = map (\<lambda>(i, j). (Suc i, Suc j)) (map (Pair i) [Suc i..<n])"
  unfolding map_Suc_upt[symmetric] by (simp add: comp_def)

lemma triu_indices_Suc:
  "triu_indices (Suc n) =
     map (Pair 0) [Suc 0..<Suc n] @ map (\<lambda>(i, j). (Suc i, Suc j)) (triu_indices n)"
  unfolding triu_indices_def upt_0_Suc list.map concat.simps map_concat map_map comp_def inner_shift
  by (simp add: comp_def)

lemma pair_sum_Cons:
  fixes g :: "'a \<Rightarrow> 'a \<Rightarrow> real"
  shows "(\<Sum>(i, j)\<leftarrow>triu_indices (length (a # xs)). g ((a # xs) ! i) ((a # xs) ! j))
     = (\<Sum>b\<leftarrow>xs. g a b) + (\<Sum>(i, j)\<leftarrow>triu_indices (length xs). g (xs ! i) (xs ! j))"
proof -
  have "(\<Sum>j\<leftarrow>[Suc 0..<Suc (length xs)]. g a ((a # xs) ! j)) = (\<Sum>j\<leftarrow>[0..<length xs]. g a (xs ! j))"
    unfolding map_Suc_upt[symmetric] by (simp add: comp_def)
  also have "\<dots> = sum_list (map (g a) (map ((!) xs) [0..<length xs]))"
    by (simp only: map_map comp_def)
  also have "\<dots> = (\<Sum>b\<leftarrow>xs. g a b)"
    by (simp only: map_nth)
  finally show ?thesis
    by (simp add: triu_indices_Suc comp_def case_prod_unfold del: upt_Suc)
qed

lemma pair_sum_double:
  fixes g :: "'a \<Rightarrow> 'a \<Rightarrow> real"
  assumes sym: "\<And>a b. g a b = g b a"
  shows "2 * (\<Sum>(i, j)\<leftarrow>triu_indices (length xs). g (xs ! i) (xs ! j)) + (\<Sum>a\<leftarrow>xs. g a a)
     = (\<Sum>a\<leftarrow>xs. \<Sum>b\<leftarrow>xs. g a b)"
proof (induction xs)
  case Nil
  show ?case by (simp add: triu_indices_def)
next
  case (Cons a xs)
  have "(\<Sum>c\<leftarrow>xs. g c a + (\<Sum>b\<leftarrow>xs. g c b)) = (\<Sum>b\<leftarrow>xs. g a b) + (\<Sum>c\<leftarrow>xs. \<Sum>b\<leftarrow>xs. g c b)"
    using sym[of _ a] by (simp add: sum_list_addf)
  with Cons.IH show ?case
    unfolding pair_sum_Cons by (simp add: algebra_simps)
qed

lemma sum_list_mset_cong:
  fixes f :: "'a \<Rightarrow> real"
  assumes "mset xs = mset ys"
  shows "(\<Sum>a\<leftarrow>xs. f a) = (\<Sum>a\<leftarrow>ys. f a)"
proof -
  have "sum_list (map f zs) = sum_mset (image_mset f (mset zs))" for zs
    unfolding mset_map[symmetric] sum_mset_sum_list ..
  with assms show ?thesis by simp
qed

lemma pair_sum_mset:
  fixes g :: "'a \<Rightarrow> 'a \<Rightarrow> real"
  assumes sym: "\<And>a b. g a b = g b a" and perm: "mset xs = mset ys"
  shows "(\<Sum>(i, j)\<leftarrow>triu_indices (length xs). g (xs ! i) (xs ! j))
       = (\<Sum>(i, j)\<leftarrow>triu_indices (length ys). g (ys ! i) (ys ! j))"
proof -
  have "(\<Sum>a\<leftarrow>xs. \<Sum>b\<leftarrow>xs. g a b) = (\<Sum>a\<leftarrow>xs. \<Sum>b\<leftarrow>ys. g a b)"
    using sum_list_mset_cong[OF perm] by simp
  also have "\<dots> = (\<Sum>a\<leftarrow>ys. \<Sum>b\<leftarrow>ys. g a b)"
    by (rule sum_list_mset_cong[OF perm])
  finally have "(\<Sum>a\<leftarrow>xs. \<Sum>b\<leftarrow>xs. g a b) = (\<Sum>a\<leftarrow>ys. \<Sum>b\<leftarrow>ys. g a b)" .
  moreover have "(\<Sum>a\<leftarrow>xs. g a a) = (\<Sum>a\<leftarrow>ys. g a a)"
    by (rule sum_list_mset_cong[OF perm])
  ultimately show ?thesis
    using pair_sum_double[of g xs, OF sym] pair_sum_double[of g ys, OF sym] by simp
qed

lemma euclid_sym: "euclid a b = euclid b a"
  by (simp add: euclid_def min.commute power2_commute)

lemma has_shape_mset: "mset x' = mset x \<Longrightarrow> has_shape n d x \<Longrightarrow> has_shape n d x'"
  by (auto simp: has_shape_def list_all_iff dest: mset_eq_length mset_eq_setD)

lemma energy_fn_mset:
  assumes "has_shape n d x" and "mset x' = mset x"
  shows "energy_fn x' n d = energy_fn x n d"
proof -
  have s': "has_shape n d x'" using assms has_shape_mset by blast
  have n: "length x = n" "length x' = n" using assms(1) s' by (simp_all add: has_shape_def)
  have "(\<Sum>r\<leftarrow>x'. \<Sum>c\<leftarrow>r. c\<^sup>2) = (\<Sum>r\<leftarrow>x. \<Sum>c\<leftarrow>r. c\<^sup>2)"
    by (rule sum_list_mset_cong[OF assms(2)])
  moreover have "(\<Sum>(i, j)\<leftarrow>triu_indices n. 1 / euclid (x' ! i) (x' ! j))
      = (\<Sum>(i, j)\<leftarrow>triu_indices n. 1 / euclid (x ! i) (x ! j))"
    using pair_sum_mset[of "\<lambda>a b. 1 / euclid a b" x' x, OF _ assms(2)] n
    by (simp add: euclid_sym)
  ultimately show ?thesis
    by (simp add: energy_fn_list[OF assms(1)] energy_fn_list[OF s'])
qed

lemma translation_example:
  "energy_fn [[0], [1]] 2 1 = Some 2 \<and> energy_fn (translate [1] [[0], [1]]) 2 1 = Some 6"
  by (simp add: energy_fn_def reshape_def reshape_flat_def flatten_def triu_indices_def
      pair_diff_def norm_last_def translate_def numeral_2_eq_2 upt_rec)


text \<open>
  C7. For a configuration with distinct particle positions, \<open>energy_fn\<close> returns the same
  value on every rearrangement of the rows (\<open>x'\<close> is a rearrangement of \<open>x\<close> when both have
  the same multiset of rows). The energy is not invariant under a global translation:
  there are a configuration and a nonzero vector, added to every particle, for which the
  returned energy changes (moving the two particles at 0 and 1 by 1 changes it from 2
  to 6).
\<close>

theorem energy_fn_permutation_invariant_translation_sensitive:
  "(\<forall>n d x x'. has_shape n d x \<and> distinct x \<and> mset x' = mset x
        \<longrightarrow> energy_fn x' n d = energy_fn x n d)
   \<and> (\<exists>n d x t. has_shape n d x \<and> distinct x \<and> length t = d \<and> t \<noteq> replicate d 0
        \<and> energy_fn (translate t x) n d \<noteq> energy_fn x n d)"
proof (intro conjI allI impI)
  fix n d and x x' :: configuration
  assume "has_shape n d x \<and> distinct x \<and> mset x' = mset x"
  then show "energy_fn x' n d = energy_fn x n d"
    by (simp add: energy_fn_mset)
next
  have "has_shape 2 1 [[0], [1::real]] \<and> distinct [[0], [1::real]] \<and> length [1::real] = 1
      \<and> [1::real] \<noteq> replicate 1 0
      \<and> energy_fn (translate [1] [[0], [1]]) 2 1 \<noteq> energy_fn [[0], [1]] 2 1"
    using translation_example by (simp add: has_shape_def)
  then show "\<exists>n d x t. has_shape n d x \<and> distinct x \<and> length t = d \<and> t \<noteq> replicate d 0
      \<and> energy_fn (translate t x) n d \<noteq> energy_fn x n d"
    by blast
qed

theorem energy_fn_permutation_invariant_translation_sensitive_witness:
  "has_shape 3 2 [[0, 0], [3, 4], [0, 4::real]]
   \<and> distinct [[0, 0], [3, 4], [0, 4::real]]
   \<and> mset [[3, 4], [0, 4], [0, 0::real]] = mset [[0, 0], [3, 4], [0, 4]]
   \<and> energy_fn [[3, 4], [0, 4], [0, 0]] 3 2 = energy_fn [[0, 0], [3, 4], [0, 4]] 3 2
   \<and> energy_fn [[0, 0], [3, 4], [0, 4]] 3 2 = Some (2507 / 60)"
proof -
  have pre: "has_shape 3 2 [[0, 0], [3, 4], [0, 4::real]]
      \<and> distinct [[0, 0], [3, 4], [0, 4::real]]
      \<and> mset [[3, 4], [0, 4], [0, 0::real]] = mset [[0, 0], [3, 4], [0, 4]]"
    by (simp add: example_shape)
  from energy_fn_permutation_invariant_translation_sensitive
  have "has_shape 3 2 [[0, 0], [3, 4], [0, 4::real]]
      \<and> distinct [[0, 0], [3, 4], [0, 4::real]]
      \<and> mset [[3, 4], [0, 4], [0, 0::real]] = mset [[0, 0], [3, 4], [0, 4]]
      \<longrightarrow> energy_fn [[3, 4], [0, 4], [0, 0]] 3 2 = energy_fn [[0, 0], [3, 4], [0, 4]] 3 2"
    by blast
  with pre example_energy show ?thesis by simp
qed

section \<open>The Metropolis step\<close>

lemma vmap_Some_iff:
  "vmap f xs = Some ys \<longleftrightarrow>
     length ys = length xs \<and> (\<forall>i<length xs. f (xs ! i) = Some (ys ! i))"
proof (induction xs arbitrary: ys)
  case Nil
  show ?case by auto
next
  case (Cons a xs)
  show ?case
  proof (cases ys)
    case Nil
    then show ?thesis by (auto split: Option.bind_splits)
  next
    case (Cons b bs)
    then show ?thesis
      using Cons.IH[of bs] by (auto simp: less_Suc_eq_0_disj split: Option.bind_splits)
  qed
qed

lemma vmap_total:
  assumes "\<forall>a\<in>set xs. \<exists>v. f a = Some v"
  shows "\<exists>ys. vmap f xs = Some ys"
  using assms by (induction xs) auto

lemma length_where_batch:
  "length accept = B \<Longrightarrow> length a = B \<Longrightarrow> length b = B \<Longrightarrow> length (where_batch accept a b) = B"
  by (simp add: where_batch_def)

lemma nth_where_batch:
  "length accept = B \<Longrightarrow> length a = B \<Longrightarrow> length b = B \<Longrightarrow> i < B \<Longrightarrow>
     where_batch accept a b ! i = (if accept ! i then a ! i else b ! i)"
  by (simp add: where_batch_def)

lemma has_shape3_nth: "has_shape3 B n d x \<Longrightarrow> b < B \<Longrightarrow> has_shape n d (x ! b)"
  by (simp add: has_shape3_def list_all_length)

lemma has_shape3_iff:
  "has_shape3 B n d x \<longleftrightarrow> length x = B \<and> (\<forall>b<B. has_shape n d (x ! b))"
  by (auto simp: has_shape3_def list_all_length)

lemma has_shape_iff:
  "has_shape n d x \<longleftrightarrow> length x = n \<and> (\<forall>i<n. length (x ! i) = d)"
  by (auto simp: has_shape_def list_all_length)

lemma shape2_has_shape:
  "has_shape n d x \<Longrightarrow> shape2 x = (n, if n = 0 then 0 else d)"
  by (cases x) (auto simp: shape2_def has_shape_def)

lemma shape3_has_shape3:
  "has_shape3 B n d x \<Longrightarrow>
     shape3 x = (B, if B = 0 then 0 else n, if B = 0 \<or> n = 0 then 0 else d)"
  by (cases x) (auto simp: shape3_def has_shape3_def shape2_has_shape)

lemma normal3_nth:
  "b < B \<Longrightarrow> normal3 R key (B, n, d) ! b =
     map (\<lambda>i. map (\<lambda>k. normal R key [B, n, d] [b, i, k]) [0..<d]) [0..<n]"
  by (simp add: normal3_def)

lemma length_normal3: "length (normal3 R key (B, n, d)) = B"
  by (simp add: normal3_def)

lemma has_shape_normal3_nth: "b < B \<Longrightarrow> has_shape n d (normal3 R key (B, n, d) ! b)"
  by (simp add: normal3_nth has_shape_iff)

lemma has_shape3_normal3_shape3:
  assumes "has_shape3 B n d x"
  shows "has_shape3 B n d (normal3 R key (shape3 x))"
  using assms
  by (auto simp: shape3_has_shape3 has_shape3_iff length_normal3 normal3_nth has_shape_iff)

lemma has_shape_add:
  "has_shape n d a \<Longrightarrow> has_shape n d e \<Longrightarrow> has_shape n d (map2 (map2 (\<lambda>a e. a + w * e)) a e)"
  by (auto simp: has_shape_iff)

lemma has_shape3_proposal:
  assumes "has_shape3 B n d x"
  shows "has_shape3 B n d
    (map2 (map2 (map2 (\<lambda>a e. a + w * e))) x (normal3 R key (shape3 x)))"
  using assms has_shape3_normal3_shape3[OF assms, of R key]
  by (auto simp: has_shape3_iff has_shape_add)

lemma nth_proposal:
  assumes "has_shape3 B n d x" "b < B"
  shows "map2 (map2 (map2 (\<lambda>a e. a + w * e))) x (normal3 R key (shape3 x)) ! b
    = map2 (map2 (\<lambda>a e. a + w * e)) (x ! b) (normal3 R key (shape3 x) ! b)"
  using assms has_shape3_normal3_shape3[OF assms(1), of R key]
  by (auto simp: has_shape3_iff)

lemma step_unfold:
  assumes "xp = map2 (map2 (map2 (\<lambda>a e. a + w * e))) x (normal3 R (split R key 3 1) (shape3 x))"
    and "logp_fn xp = Some lp"
    and "ratio = map2 (\<lambda>p l. exp (p - l)) lp logp"
    and "accept = map2 (\<lambda>u r. u < r) (uniform1 R (split R key 3 2) (length ratio)) ratio"
  shows "step R logp_fn w i (x, logp, key, acc) =
    Some (where_batch accept xp x, where_batch accept lp logp, split R key 3 0,
          acc + real (length (filter id accept)))"
  using assms by (simp add: step_def Let_def)

lemma vmap_total_shape:
  assumes "has_shape3 B n d xs" and "\<forall>c. has_shape n d c \<longrightarrow> (\<exists>v. f c = Some v)"
  shows "\<exists>ys. vmap f xs = Some ys"
proof (rule vmap_total)
  show "\<forall>a\<in>set xs. \<exists>v. f a = Some v"
    using assms by (auto simp: has_shape3_def list_all_iff)
qed

lemma step_chains:
  assumes sh: "has_shape3 B n d x" and len: "length logp = B"
    and tot: "\<forall>c. has_shape n d c \<longrightarrow> (\<exists>v. f c = Some v)"
  shows "\<exists>x' logp' accept.
      step R (vmap f) w i (x, logp, key, acc)
        = Some (x', logp', split R key 3 0, acc + real (length (filter id accept)))
      \<and> has_shape3 B n d x' \<and> length logp' = B \<and> length accept = B
      \<and> (\<forall>b<B. \<exists>lp.
            f (map2 (map2 (\<lambda>a e. a + w * e)) (x ! b)
                 (normal3 R (split R key 3 1) (shape3 x) ! b)) = Some lp
            \<and> accept ! b = (uniform R (split R key 3 2) [B] [b] < exp (lp - logp ! b))
            \<and> x' ! b = (if accept ! b
                 then map2 (map2 (\<lambda>a e. a + w * e)) (x ! b)
                        (normal3 R (split R key 3 1) (shape3 x) ! b)
                 else x ! b)
            \<and> logp' ! b = (if accept ! b then lp else logp ! b))"
proof -
  define xp where "xp = map2 (map2 (map2 (\<lambda>a e. a + w * e))) x (normal3 R (split R key 3 1) (shape3 x))"
  have xp_sh: "has_shape3 B n d xp"
    unfolding xp_def by (rule has_shape3_proposal[OF sh])
  obtain lp where lp: "vmap f xp = Some lp"
    using vmap_total_shape[OF xp_sh tot] by blast
  then have lp_len: "length lp = B" and lp_nth: "\<And>b. b < B \<Longrightarrow> f (xp ! b) = Some (lp ! b)"
    using xp_sh by (auto simp: vmap_Some_iff has_shape3_iff)
  define ratio where "ratio = map2 (\<lambda>p l. exp (p - l)) lp logp"
  define accept where "accept = map2 (\<lambda>u r. u < r) (uniform1 R (split R key 3 2) (length ratio)) ratio"
  have ratio_len: "length ratio = B" by (simp add: ratio_def lp_len len)
  have acc_len: "length accept = B" by (simp add: accept_def ratio_len uniform1_def)
  have xlen: "length x = B" "length xp = B" using sh xp_sh by (auto simp: has_shape3_iff)
  have st: "step R (vmap f) w i (x, logp, key, acc) =
      Some (where_batch accept xp x, where_batch accept lp logp, split R key 3 0,
            acc + real (length (filter id accept)))"
    using xp_def lp ratio_def accept_def by (rule step_unfold)
  have sh': "has_shape3 B n d (where_batch accept xp x)"
    using sh xp_sh acc_len xlen
    by (auto simp: has_shape3_iff length_where_batch nth_where_batch)
  have per: "\<exists>lq. f (map2 (map2 (\<lambda>a e. a + w * e)) (x ! b)
                 (normal3 R (split R key 3 1) (shape3 x) ! b)) = Some lq
            \<and> accept ! b = (uniform R (split R key 3 2) [B] [b] < exp (lq - logp ! b))
            \<and> where_batch accept xp x ! b = (if accept ! b
                 then map2 (map2 (\<lambda>a e. a + w * e)) (x ! b)
                        (normal3 R (split R key 3 1) (shape3 x) ! b)
                 else x ! b)
            \<and> where_batch accept lp logp ! b = (if accept ! b then lq else logp ! b)"
    if "b < B" for b
  proof -
    have xpb: "xp ! b = map2 (map2 (\<lambda>a e. a + w * e)) (x ! b)
                 (normal3 R (split R key 3 1) (shape3 x) ! b)"
      unfolding xp_def by (rule nth_proposal[OF sh that])
    have "accept ! b = (uniform R (split R key 3 2) [B] [b] < exp (lp ! b - logp ! b))"
      using that by (simp add: accept_def ratio_def ratio_len uniform1_def lp_len len)
    then show ?thesis
      using that lp_nth[OF that] xpb acc_len xlen lp_len len
      by (simp add: nth_where_batch)
  qed
  show ?thesis
    using st sh' acc_len per lp_len len
    by (intro exI[of _ "where_batch accept xp x"] exI[of _ "where_batch accept lp logp"]
        exI[of _ accept]) (simp add: length_where_batch)
qed

lemma step_preserves:
  assumes sh: "has_shape3 B n d x" and inv: "vmap f x = Some logp"
    and tot: "\<forall>c. has_shape n d c \<longrightarrow> (\<exists>v. f c = Some v)"
  shows "\<exists>x' logp' key' acc'.
      step R (vmap f) w i (x, logp, key, acc) = Some (x', logp', key', acc')
      \<and> has_shape3 B n d x' \<and> vmap f x' = Some logp'"
proof -
  have len: "length logp = B" and old: "\<And>b. b < B \<Longrightarrow> f (x ! b) = Some (logp ! b)"
    using inv sh by (auto simp: vmap_Some_iff has_shape3_iff)
  from step_chains[OF sh len tot, of R w i key acc]
  obtain x' logp' accept where st:
    "step R (vmap f) w i (x, logp, key, acc)
        = Some (x', logp', split R key 3 0, acc + real (length (filter id accept)))"
    and sh': "has_shape3 B n d x'" and len': "length logp' = B"
    and per: "\<forall>b<B. \<exists>lp.
            f (map2 (map2 (\<lambda>a e. a + w * e)) (x ! b)
                 (normal3 R (split R key 3 1) (shape3 x) ! b)) = Some lp
            \<and> accept ! b = (uniform R (split R key 3 2) [B] [b] < exp (lp - logp ! b))
            \<and> x' ! b = (if accept ! b
                 then map2 (map2 (\<lambda>a e. a + w * e)) (x ! b)
                        (normal3 R (split R key 3 1) (shape3 x) ! b)
                 else x ! b)
            \<and> logp' ! b = (if accept ! b then lp else logp ! b)"
    by blast
  have "f (x' ! b) = Some (logp' ! b)" if "b < B" for b
    using per[rule_format, OF that] old[OF that] by (cases "accept ! b") auto
  then have "vmap f x' = Some logp'"
    using sh' len' by (simp add: vmap_Some_iff has_shape3_iff)
  with st sh' show ?thesis by blast
qed

lemma fori_loop_invariant:
  assumes "P val" and "\<And>i s. P s \<Longrightarrow> \<exists>s'. body_fun i s = Some s' \<and> P s'"
  shows "\<exists>s'. fori_loop lower upper body_fun val = Some s' \<and> P s'"
  using assms
proof (induction lower upper body_fun val rule: fori_loop.induct)
  case (1 lower upper body_fun val)
  show ?case
  proof (cases "lower < upper")
    case True
    from "1.prems" obtain val' where v: "body_fun lower val = Some val'" "P val'"
      by blast
    from "1.IH"[OF True v(1) v(2) "1.prems"(2)]
    show ?thesis
      using True v by (subst fori_loop.simps) simp
  next
    case False
    then show ?thesis
      using "1.prems"(1) by (subst fori_loop.simps) simp
  qed
qed

lemma mcmc_logp_total:
  "\<forall>c. has_shape n d c \<longrightarrow> (\<exists>v. (do { e \<leftarrow> energy_fn c n d; Some (- beta * e) }) = Some v)"
  by (simp add: energy_fn_list)


lemma fori_loop_unroll:
  "lower < upper \<Longrightarrow>
     fori_loop lower upper body_fun val = body_fun lower val \<bind> fori_loop (Suc lower) upper body_fun"
  by (subst fori_loop.simps) simp

lemma fori_loop_done: "\<not> lower < upper \<Longrightarrow> fori_loop lower upper body_fun val = Some val"
  by (subst fori_loop.simps) simp

lemma half_less_exp: "0 \<le> x \<Longrightarrow> 1 < exp (x::real) * 2"
  using one_le_exp_iff[of x] by linarith

lemma half_not_less_exp: "x \<le> - 1 \<Longrightarrow> \<not> 1 < exp (x::real) * 2"
proof -
  assume "x \<le> - 1"
  then have "exp x \<le> exp (- 1)" by simp
  moreover have "exp (- 1) \<le> (1 / 2 :: real)"
    using exp_ge_add_one_self[of "1::real"] by (simp add: exp_minus field_simps)
  ultimately show ?thesis by linarith
qed

lemma example_batch_shape: "has_shape3 2 2 2 example_batch"
  by (simp add: example_batch_def has_shape3_def has_shape_def)

lemmas energy_eval = energy_fn_def reshape_def reshape_flat_def
      flatten_def triu_indices_def pair_diff_def norm_last_def numeral_2_eq_2 sqrt_25

lemma example_logp: "mcmc_logp 1 example_batch 2 2 = Some [- (126 / 5), - (216 / 5)]"
  by (simp add: example_batch_def mcmc_logp_def energy_eval)

lemma example_step:
  "step example_random (\<lambda>x. mcmc_logp 1 x 2 2) 1 i
      (example_batch, [- (126 / 5), - (216 / 5)], key, acc)
     = Some ([[[0, 0], [3, 4]], [[0, 0], [- 3, - 4]]], [- (126 / 5), - (126 / 5)],
             3 * key + 1, acc + 1)"
  by (simp add: step_def example_random_def example_batch_def normal3_def shape3_def shape2_def
      uniform1_def where_batch_def mcmc_logp_def energy_eval half_less_exp half_not_less_exp)

lemma example_step2:
  "step example_random (\<lambda>x. mcmc_logp 1 x 2 2) 1 i
      ([[[0, 0], [3, 4]], [[0, 0], [- 3, - 4]]], [- (126 / 5), - (126 / 5)], key, acc)
     = Some ([[[0, 0], [3, 4]], [[1, 1], [- 2, - 3]]], [- (126 / 5), - (76 / 5)],
             3 * key + 1, acc + 1)"
  by (simp add: step_def example_random_def normal3_def shape3_def shape2_def
      uniform1_def where_batch_def mcmc_logp_def energy_eval half_less_exp half_not_less_exp)

lemma example_logp2:
  "mcmc_logp 1 [[[0, 0], [3, 4]], [[1, 1], [- 2, - 3]]] 2 2 = Some [- (126 / 5), - (76 / 5)]"
  by (simp add: mcmc_logp_def energy_eval)

lemma example_loop:
  "fori_loop 0 2 (step example_random (\<lambda>x. mcmc_logp 1 x 2 2) 1)
      (example_batch, [- (126 / 5), - (216 / 5)], key, 0)
     = Some ([[[0, 0], [3, 4]], [[1, 1], [- 2, - 3]]], [- (126 / 5), - (76 / 5)],
             3 * (3 * key + 1) + 1, 2)"
  by (simp add: fori_loop_unroll fori_loop_done example_step example_step2)

lemma example_mcmc:
  "mcmc example_random (\<lambda>x. mcmc_logp 1 x 2 2) example_batch key 2 1
     = Some ([[[0, 0], [3, 4]], [[1, 1], [- 2, - 3]]], 1 / 2)"
  by (simp add: mcmc_def example_logp example_loop)

text \<open>
  C3. One inner Metropolis step, chain by chain. For a batch of \<open>B\<close> chains and a target
  log-density that is evaluated chain by chain (\<open>logp_fn = vmap f\<close>, as the notebook's is),
  \<open>step\<close> returns, and for every chain \<open>b\<close>: the acceptance ratio is
  \<open>exp (logp_proposal - logp)\<close> of that chain; the chain accepts exactly when its uniform
  draw is strictly less than the ratio, so always when the ratio is at least 1 (the draw is
  below 1); an accepting chain takes the proposed positions and their log-density, a
  rejecting chain keeps its positions and its log-density. The new state of chain \<open>b\<close> is
  a function of the old state of chain \<open>b\<close> and of the draws at index \<open>b\<close> only: changing
  the other chains of the batch does not change it.
\<close>

theorem step_metropolis_per_chain:
  assumes "has_shape3 B n d x" and "length logp = B"
    and "\<forall>c. has_shape n d c \<longrightarrow> (\<exists>v. f c = Some v)"
  shows "\<exists>x' logp' accept.
      step R (vmap f) mc_width i (x, logp, key, num_accepts)
        = Some (x', logp', split R key 3 0, num_accepts + real (length (filter id accept)))
      \<and> length x' = B \<and> length logp' = B \<and> length accept = B
      \<and> (\<forall>b<B. \<exists>x_proposal logp_proposal ratio u.
            x_proposal = map2 (map2 (\<lambda>a e. a + mc_width * e)) (x ! b)
                           (normal3 R (split R key 3 1) (shape3 x) ! b)
          \<and> f x_proposal = Some logp_proposal
          \<and> ratio = exp (logp_proposal - logp ! b)
          \<and> u = uniform R (split R key 3 2) [B] [b]
          \<and> accept ! b = (u < ratio)
          \<and> (1 \<le> ratio \<and> u < 1 \<longrightarrow> accept ! b)
          \<and> x' ! b = (if accept ! b then x_proposal else x ! b)
          \<and> logp' ! b = (if accept ! b then logp_proposal else logp ! b))
      \<and> (\<forall>x2 logp2 num2 b.
            has_shape3 B n d x2 \<and> length logp2 = B \<and> b < B \<and> x2 ! b = x ! b \<and> logp2 ! b = logp ! b
            \<longrightarrow> (\<exists>x2' logp2' key2' num2'.
                  step R (vmap f) mc_width i (x2, logp2, key, num2) = Some (x2', logp2', key2', num2')
                  \<and> x2' ! b = x' ! b \<and> logp2' ! b = logp' ! b))"
proof -
  from step_chains[OF assms, of R mc_width i key num_accepts]
  obtain x' logp' accept where st:
    "step R (vmap f) mc_width i (x, logp, key, num_accepts)
        = Some (x', logp', split R key 3 0, num_accepts + real (length (filter id accept)))"
    and sh': "has_shape3 B n d x'" and len': "length logp' = B" and lena: "length accept = B"
    and per: "\<forall>b<B. \<exists>lp.
            f (map2 (map2 (\<lambda>a e. a + mc_width * e)) (x ! b)
                 (normal3 R (split R key 3 1) (shape3 x) ! b)) = Some lp
            \<and> accept ! b = (uniform R (split R key 3 2) [B] [b] < exp (lp - logp ! b))
            \<and> x' ! b = (if accept ! b
                 then map2 (map2 (\<lambda>a e. a + mc_width * e)) (x ! b)
                        (normal3 R (split R key 3 1) (shape3 x) ! b)
                 else x ! b)
            \<and> logp' ! b = (if accept ! b then lp else logp ! b)"
    by blast
  have part1: "\<forall>b<B. \<exists>x_proposal logp_proposal ratio u.
            x_proposal = map2 (map2 (\<lambda>a e. a + mc_width * e)) (x ! b)
                           (normal3 R (split R key 3 1) (shape3 x) ! b)
          \<and> f x_proposal = Some logp_proposal
          \<and> ratio = exp (logp_proposal - logp ! b)
          \<and> u = uniform R (split R key 3 2) [B] [b]
          \<and> accept ! b = (u < ratio)
          \<and> (1 \<le> ratio \<and> u < 1 \<longrightarrow> accept ! b)
          \<and> x' ! b = (if accept ! b then x_proposal else x ! b)
          \<and> logp' ! b = (if accept ! b then logp_proposal else logp ! b)"
  proof (intro allI impI)
    fix b assume "b < B"
    with per obtain lp where lp:
      "f (map2 (map2 (\<lambda>a e. a + mc_width * e)) (x ! b)
                 (normal3 R (split R key 3 1) (shape3 x) ! b)) = Some lp"
      "accept ! b = (uniform R (split R key 3 2) [B] [b] < exp (lp - logp ! b))"
      "x' ! b = (if accept ! b
                 then map2 (map2 (\<lambda>a e. a + mc_width * e)) (x ! b)
                        (normal3 R (split R key 3 1) (shape3 x) ! b)
                 else x ! b)"
      "logp' ! b = (if accept ! b then lp else logp ! b)"
      by blast
    have "1 \<le> exp (lp - logp ! b) \<and> uniform R (split R key 3 2) [B] [b] < 1 \<longrightarrow> accept ! b"
      unfolding lp(2) by (intro impI) (elim conjE, erule (1) less_le_trans)
    with lp show "\<exists>x_proposal logp_proposal ratio u.
            x_proposal = map2 (map2 (\<lambda>a e. a + mc_width * e)) (x ! b)
                           (normal3 R (split R key 3 1) (shape3 x) ! b)
          \<and> f x_proposal = Some logp_proposal
          \<and> ratio = exp (logp_proposal - logp ! b)
          \<and> u = uniform R (split R key 3 2) [B] [b]
          \<and> accept ! b = (u < ratio)
          \<and> (1 \<le> ratio \<and> u < 1 \<longrightarrow> accept ! b)
          \<and> x' ! b = (if accept ! b then x_proposal else x ! b)
          \<and> logp' ! b = (if accept ! b then logp_proposal else logp ! b)"
      by simp
  qed
  have part2: "\<exists>x2' logp2' key2' num2'.
        step R (vmap f) mc_width i (x2, logp2, key, num2) = Some (x2', logp2', key2', num2')
        \<and> x2' ! b = x' ! b \<and> logp2' ! b = logp' ! b"
    if h: "has_shape3 B n d x2 \<and> length logp2 = B \<and> b < B \<and> x2 ! b = x ! b \<and> logp2 ! b = logp ! b"
    for x2 logp2 num2 b
  proof -
    from h have sh2: "has_shape3 B n d x2" and len2: "length logp2 = B" and b: "b < B"
      and eq: "x2 ! b = x ! b" "logp2 ! b = logp ! b"
      by auto
    have shp: "shape3 x2 = shape3 x"
      using sh2 assms(1) by (simp add: shape3_has_shape3)
    from step_chains[OF sh2 len2 assms(3), of R mc_width i key num2]
    obtain x2' logp2' accept2 where st2:
      "step R (vmap f) mc_width i (x2, logp2, key, num2)
        = Some (x2', logp2', split R key 3 0, num2 + real (length (filter id accept2)))"
      and per2: "\<forall>b<B. \<exists>lp.
            f (map2 (map2 (\<lambda>a e. a + mc_width * e)) (x2 ! b)
                 (normal3 R (split R key 3 1) (shape3 x2) ! b)) = Some lp
            \<and> accept2 ! b = (uniform R (split R key 3 2) [B] [b] < exp (lp - logp2 ! b))
            \<and> x2' ! b = (if accept2 ! b
                 then map2 (map2 (\<lambda>a e. a + mc_width * e)) (x2 ! b)
                        (normal3 R (split R key 3 1) (shape3 x2) ! b)
                 else x2 ! b)
            \<and> logp2' ! b = (if accept2 ! b then lp else logp2 ! b)"
      by blast
    from per[rule_format, OF b] per2[rule_format, OF b]
    have "x2' ! b = x' ! b \<and> logp2' ! b = logp' ! b"
      unfolding shp eq by auto
    with st2 show ?thesis by blast
  qed
  from sh' have "length x' = B" by (simp add: has_shape3_iff)
  with st len' lena part1 part2 show ?thesis
    by blast
qed

lemma mcmc_logp_vmap:
  "(\<lambda>x. mcmc_logp beta x n d) = vmap (\<lambda>x. do { e \<leftarrow> energy_fn x n d; Some (- beta * e) })"
  by (simp add: mcmc_logp_def fun_eq_iff)

theorem step_metropolis_per_chain_witness:
  "has_shape3 2 2 2 example_batch
   \<and> (\<exists>x' logp' accept.
        step example_random (\<lambda>x. mcmc_logp 1 x 2 2) 1 0
            (example_batch, [- (126 / 5), - (216 / 5)], 0, 0)
          = Some (x', logp', split example_random 0 3 0, 0 + real (length (filter id accept)))
        \<and> length accept = 2
        \<and> x' = [[[0, 0], [3, 4]], [[0, 0], [- 3, - 4]]]
        \<and> logp' = [- (126 / 5), - (126 / 5)])"
proof -
  have "length [- (126 / 5), - (216 / 5) :: real] = 2"
    by simp
  from step_metropolis_per_chain[OF example_batch_shape this mcmc_logp_total[where beta = 1],
      where R = example_random and mc_width = 1 and i = 0 and key = 0
        and num_accepts = 0]
  obtain x' logp' accept where
    "step example_random (\<lambda>x. mcmc_logp 1 x 2 2) 1 0
            (example_batch, [- (126 / 5), - (216 / 5)], 0, 0)
          = Some (x', logp', split example_random 0 3 0, 0 + real (length (filter id accept)))"
    and "length accept = 2"
    unfolding mcmc_logp_vmap by auto
  then show ?thesis
    using example_step[of 0 0 0] example_batch_shape by auto
qed




section \<open>The outer sampling loop\<close>

lemma loop_preserves:
  assumes sh: "has_shape3 B n d x" and inv: "vmap f x = Some logp"
    and tot: "\<forall>c. has_shape n d c \<longrightarrow> (\<exists>v. f c = Some v)"
  shows "\<exists>x' logp' key' acc'.
      fori_loop lower upper (step R (vmap f) w) (x, logp, key, acc) = Some (x', logp', key', acc')
      \<and> has_shape3 B n d x' \<and> vmap f x' = Some logp'"
proof -
  have "\<exists>s'. fori_loop lower upper (step R (vmap f) w) (x, logp, key, acc) = Some s'
      \<and> (case s' of (x, logp, key', acc) \<Rightarrow> has_shape3 B n d x \<and> vmap f x = Some logp)"
  proof (rule fori_loop_invariant)
    show "case (x, logp, key, acc) of (x, logp, key', acc) \<Rightarrow>
        has_shape3 B n d x \<and> vmap f x = Some logp"
      using sh inv by simp
  next
    fix i and s :: "configuration list \<times> real list \<times> 'a \<times> real"
    assume "case s of (x, logp, key', acc) \<Rightarrow> has_shape3 B n d x \<and> vmap f x = Some logp"
    then show "\<exists>s'. step R (vmap f) w i s = Some s'
        \<and> (case s' of (x, logp, key', acc) \<Rightarrow> has_shape3 B n d x \<and> vmap f x = Some logp)"
      using step_preserves[OF _ _ tot] by (cases s) fastforce
  qed
  then show ?thesis by auto
qed

lemma mcmc_returns:
  assumes sh: "has_shape3 B n d x"
  shows "\<exists>x' logp_init logp' key' num_accepts.
      mcmc_logp beta x n d = Some logp_init
      \<and> fori_loop 0 mc_steps (step R (\<lambda>x. mcmc_logp beta x n d) w) (x, logp_init, key, 0)
          = Some (x', logp', key', num_accepts)
      \<and> mcmc R (\<lambda>x. mcmc_logp beta x n d) x key mc_steps w
          = Some (x', num_accepts / (real mc_steps * real B))
      \<and> has_shape3 B n d x'"
proof -
  define f where "f = (\<lambda>x. do { e \<leftarrow> energy_fn x n d; Some (- beta * e) })"
  have fn: "(\<lambda>x. mcmc_logp beta x n d) = vmap f"
    unfolding f_def by (rule mcmc_logp_vmap)
  have tot: "\<forall>c. has_shape n d c \<longrightarrow> (\<exists>v. f c = Some v)"
    unfolding f_def by (rule mcmc_logp_total)
  obtain logp_init where li: "vmap f x = Some logp_init"
    using vmap_total_shape[OF sh tot] by blast
  from loop_preserves[OF sh li tot, of 0 mc_steps R w key 0]
  obtain x' logp' key' num where
    lp: "fori_loop 0 mc_steps (step R (vmap f) w) (x, logp_init, key, 0) = Some (x', logp', key', num)"
    and sh': "has_shape3 B n d x'"
    by blast
  have "length x' = B" using sh' by (simp add: has_shape3_iff)
  then have "mcmc R (vmap f) x key mc_steps w = Some (x', num / (real mc_steps * real B))"
    by (simp add: mcmc_def li lp)
  moreover have "mcmc_logp beta x n d = vmap f x"
    by (simp add: mcmc_logp_def f_def)
  ultimately show ?thesis
    using li lp sh' unfolding fn by auto
qed

lemma batch_energy_total:
  "has_shape3 B n d x \<Longrightarrow> \<exists>e. batch_energy x n d = Some e"
  unfolding batch_energy_def
  by (rule vmap_total_shape[where B = B and n = n and d = d]) (simp_all add: energy_fn_list)

lemma sampling_loop_returns:
  "has_shape3 B n d x \<Longrightarrow>
     \<exists>final printed. sampling_loop R beta n d mc_steps iters (x, key, w) = Some (final, printed)
        \<and> length printed = iters"
proof (induction iters arbitrary: x key w)
  case 0
  show ?case by simp
next
  case (Suc iters)
  from mcmc_returns[OF Suc.prems, of beta mc_steps R w "split R key 2 1"]
  obtain x' acc where m: "mcmc R (\<lambda>x. mcmc_logp beta x n d) x (split R key 2 1) mc_steps w = Some (x', acc)"
    and sh': "has_shape3 B n d x'"
    by blast
  obtain e where e: "batch_energy x' n d = Some e"
    using batch_energy_total[OF sh'] by blast
  from Suc.IH[OF sh', of "split R key 2 0" "adapt_width acc w"]
  obtain final printed where
    "sampling_loop R beta n d mc_steps iters (x', split R key 2 0, adapt_width acc w) = Some (final, printed)"
    "length printed = iters"
    by blast
  with m e show ?case
    by (cases final) simp
qed


text \<open>
  C5. The step width changes only between outer iterations. For a batch of \<open>B > 0\<close> chains
  and \<open>mc_steps > 0\<close> inner steps, one outer iteration of \<open>sampling_loop\<close> runs all inner
  steps of \<open>mcmc\<close> with the one width \<open>mc_width\<close>, reports the acceptance rate
  \<open>num_accepts / (mc_steps * B)\<close>, and hands \<open>adapt_width acc mc_width\<close> to the next iteration,
  where \<open>adapt_width\<close> multiplies the width by 1.05 when the rate exceeds 0.525, by 0.95 when
  it is below 0.475, and leaves it unchanged otherwise. For the rates 0.6, 0.6, 0.4, 0.4,
  0.5 the multipliers are 1.05, 1.05, 0.95, 0.95, 1 in this order, and the widths compound:
  from \<open>w\<close> they are \<open>w * 1.05\<close>, \<open>w * 1.05 * 1.05\<close>, \<open>w * 1.05 * 1.05 * 0.95\<close>,
  \<open>w * 1.05 * 1.05 * 0.95 * 0.95\<close> and the same again. The products are left as the loop
  forms them, one multiplication per iteration: their values in 64-bit floats are the
  rounded products, which are not stated here.
\<close>

theorem width_adaptation_between_outer_iterations:
  assumes "has_shape3 B n d x" and "0 < B" and "0 < mc_steps"
  shows "(\<forall>acc w. adapt_width acc w
            = (if acc > 0.525 then w * 1.05 else if acc < 0.475 then w * 0.95 else w))
    \<and> (\<forall>w. adapt_width 0.6 w = w * 1.05 \<and> adapt_width 0.4 w = w * 0.95
            \<and> adapt_width 0.5 w = w * 1)
    \<and> (\<forall>w. adapt_width 0.6 w = w * 1.05
            \<and> adapt_width 0.6 (w * 1.05) = w * 1.05 * 1.05
            \<and> adapt_width 0.4 (w * 1.05 * 1.05) = w * 1.05 * 1.05 * 0.95
            \<and> adapt_width 0.4 (w * 1.05 * 1.05 * 0.95) = w * 1.05 * 1.05 * 0.95 * 0.95
            \<and> adapt_width 0.5 (w * 1.05 * 1.05 * 0.95 * 0.95) = w * 1.05 * 1.05 * 0.95 * 0.95)
    \<and> (\<exists>x' logp_init logp' key' num_accepts acc E final printed.
          mcmc_logp beta x n d = Some logp_init
        \<and> fori_loop 0 mc_steps (step R (\<lambda>x. mcmc_logp beta x n d) mc_width)
              (x, logp_init, split R key 2 1, 0) = Some (x', logp', key', num_accepts)
        \<and> acc = num_accepts / (real mc_steps * real B)
        \<and> mcmc R (\<lambda>x. mcmc_logp beta x n d) x (split R key 2 1) mc_steps mc_width
              = Some (x', acc)
        \<and> sampling_loop R beta n d mc_steps (Suc iters) (x, key, mc_width)
              = Some (final, (E, acc, mc_width) # printed)
        \<and> sampling_loop R beta n d mc_steps iters
              (x', split R key 2 0, adapt_width acc mc_width) = Some (final, printed))"
proof -
  have rule: "\<forall>acc w. adapt_width acc w
            = (if acc > 0.525 then w * 1.05 else if acc < 0.475 then w * 0.95 else w)"
    by (simp add: adapt_width_def)
  have mult: "\<forall>w. adapt_width 0.6 w = w * 1.05 \<and> adapt_width 0.4 w = w * 0.95
            \<and> adapt_width 0.5 w = w * 1"
    by (simp add: adapt_width_def)
  have trace: "\<forall>w. adapt_width 0.6 w = w * 1.05
            \<and> adapt_width 0.6 (w * 1.05) = w * 1.05 * 1.05
            \<and> adapt_width 0.4 (w * 1.05 * 1.05) = w * 1.05 * 1.05 * 0.95
            \<and> adapt_width 0.4 (w * 1.05 * 1.05 * 0.95) = w * 1.05 * 1.05 * 0.95 * 0.95
            \<and> adapt_width 0.5 (w * 1.05 * 1.05 * 0.95 * 0.95) = w * 1.05 * 1.05 * 0.95 * 0.95"
    by (simp add: adapt_width_def)
  from mcmc_returns[OF assms(1), of beta mc_steps R mc_width "split R key 2 1"]
  obtain x' logp_init logp' key' num_accepts where
    li: "mcmc_logp beta x n d = Some logp_init"
    and lp: "fori_loop 0 mc_steps (step R (\<lambda>x. mcmc_logp beta x n d) mc_width)
              (x, logp_init, split R key 2 1, 0) = Some (x', logp', key', num_accepts)"
    and m: "mcmc R (\<lambda>x. mcmc_logp beta x n d) x (split R key 2 1) mc_steps mc_width
          = Some (x', num_accepts / (real mc_steps * real B))"
    and sh': "has_shape3 B n d x'"
    by blast
  define acc where "acc = num_accepts / (real mc_steps * real B)"
  obtain e where e: "batch_energy x' n d = Some e"
    using batch_energy_total[OF sh'] by blast
  from sampling_loop_returns[OF sh', of R beta mc_steps iters "split R key 2 0" "adapt_width acc mc_width"]
  obtain final printed where
    rest: "sampling_loop R beta n d mc_steps iters (x', split R key 2 0, adapt_width acc mc_width)
        = Some (final, printed)"
    by blast
  have "sampling_loop R beta n d mc_steps (Suc iters) (x, key, mc_width)
      = Some (final, (mean e, acc, mc_width) # printed)"
    using m e rest unfolding acc_def[symmetric] by (cases final) simp
  with li lp m rest acc_def have "\<exists>x' logp_init logp' key' num_accepts acc E final printed.
          mcmc_logp beta x n d = Some logp_init
        \<and> fori_loop 0 mc_steps (step R (\<lambda>x. mcmc_logp beta x n d) mc_width)
              (x, logp_init, split R key 2 1, 0) = Some (x', logp', key', num_accepts)
        \<and> acc = num_accepts / (real mc_steps * real B)
        \<and> mcmc R (\<lambda>x. mcmc_logp beta x n d) x (split R key 2 1) mc_steps mc_width
              = Some (x', acc)
        \<and> sampling_loop R beta n d mc_steps (Suc iters) (x, key, mc_width)
              = Some (final, (E, acc, mc_width) # printed)
        \<and> sampling_loop R beta n d mc_steps iters
              (x', split R key 2 0, adapt_width acc mc_width) = Some (final, printed)"
    by blast
  with rule mult trace show ?thesis
    by (intro conjI) blast+
qed

theorem width_adaptation_between_outer_iterations_witness:
  "has_shape3 2 2 2 example_batch
   \<and> mcmc example_random (\<lambda>x. mcmc_logp 1 x 2 2) example_batch (split example_random 0 2 1) 2 1
       = Some ([[[0, 0], [3, 4]], [[1, 1], [- 2, - 3]]], 1 / 2)
   \<and> adapt_width (1 / 2) 1 = 1
   \<and> (\<exists>E final printed.
        sampling_loop example_random 1 2 2 2 (Suc 3) (example_batch, 0, 1)
          = Some (final, (E, 1 / 2, 1) # printed)
        \<and> sampling_loop example_random 1 2 2 2 3
             ([[[0, 0], [3, 4]], [[1, 1], [- 2, - 3]]], split example_random 0 2 0, 1)
          = Some (final, printed))"
proof -
  have pos: "0 < (2::nat)"
    by simp
  from width_adaptation_between_outer_iterations[OF example_batch_shape pos pos,
      where beta = 1 and R = example_random and mc_width = 1 and key = 0
        and iters = 3]
  obtain x' acc E final printed where
    m: "mcmc example_random (\<lambda>x. mcmc_logp 1 x 2 2) example_batch (split example_random 0 2 1) 2 1
       = Some (x', acc)"
    and s1: "sampling_loop example_random 1 2 2 2 (Suc 3) (example_batch, 0, 1)
       = Some (final, (E, acc, 1) # printed)"
    and s2: "sampling_loop example_random 1 2 2 2 3 (x', split example_random 0 2 0, adapt_width acc 1)
       = Some (final, printed)"
    by blast
  have ev: "mcmc example_random (\<lambda>x. mcmc_logp 1 x 2 2) example_batch (split example_random 0 2 1) 2 1
       = Some ([[[0, 0], [3, 4]], [[1, 1], [- 2, - 3]]], 1 / 2)"
    by (rule example_mcmc)
  from m ev have x': "x' = [[[0, 0], [3, 4]], [[1, 1], [- 2, - 3]]]" and acc: "acc = 1 / 2"
    by simp_all
  have ad: "adapt_width (1 / 2) 1 = 1"
    by (simp add: adapt_width_def)
  from s1 s2 show ?thesis
    unfolding x' acc ad using example_batch_shape ev ad by blast
qed


section \<open>Keys in the training loop\<close>

lemma training_loop_calls_Suc:
  "\<exists>params' opt_state' loss_history'.
     snd (training_loop R update shp (Suc iters) (key, params, opt_state, loss_history))
       = Split key # Normal (split R key 2 0)
         # snd (training_loop R update shp iters
             (split R key 2 0, params', opt_state', loss_history'))"
proof -
  obtain p' o' datas where u:
    "update params opt_state (normal3 R (split R key 2 0) shp) = (p', o', datas)"
    by (cases "update params opt_state (normal3 R (split R key 2 0) shp)") auto
  define h' where "h' = loss_history
    @ [[F_mean (snd datas), F_std (snd datas), E_mean (snd datas), E_std (snd datas),
        S_mean (snd datas), S_std (snd datas)]]"
  obtain final calls where t:
    "training_loop R update shp iters (split R key 2 0, p', o', h') = (final, calls)"
    by (cases "training_loop R update shp iters (split R key 2 0, p', o', h')") auto
  have "snd (training_loop R update shp (Suc iters) (key, params, opt_state, loss_history))
      = Split key # Normal (split R key 2 0)
        # snd (training_loop R update shp iters (split R key 2 0, p', o', h'))"
    by (simp add: u t Let_def h'_def[symmetric])
  then show ?thesis by blast
qed

lemma training_loop_calls_nth:
  "Suc i < iters \<Longrightarrow>
     snd (training_loop R update shp iters (key, params, opt_state, loss_history)) ! (2 * i + 1)
       = Normal (((\<lambda>k. split R k 2 0) ^^ Suc i) key)
     \<and> snd (training_loop R update shp iters (key, params, opt_state, loss_history)) ! (2 * i + 2)
       = Split (((\<lambda>k. split R k 2 0) ^^ Suc i) key)"
proof (induction i arbitrary: iters key params opt_state loss_history)
  case 0
  then obtain m where m: "iters = Suc (Suc m)"
    by (cases iters rule: nat.exhaust; cases "iters - 1") auto
  from training_loop_calls_Suc[of R update shp "Suc m" key params opt_state loss_history]
  obtain p1 o1 h1 where c1:
    "snd (training_loop R update shp (Suc (Suc m)) (key, params, opt_state, loss_history))
       = Split key # Normal (split R key 2 0)
         # snd (training_loop R update shp (Suc m) (split R key 2 0, p1, o1, h1))"
    by blast
  from training_loop_calls_Suc[of R update shp m "split R key 2 0" p1 o1 h1]
  obtain p2 o2 h2 where c2:
    "snd (training_loop R update shp (Suc m) (split R key 2 0, p1, o1, h1))
       = Split (split R key 2 0) # Normal (split R (split R key 2 0) 2 0)
         # snd (training_loop R update shp m (split R (split R key 2 0) 2 0, p2, o2, h2))"
    by blast
  show ?case
    unfolding m c1 c2 by simp
next
  case (Suc i)
  then obtain m where m: "iters = Suc m" and lt: "Suc i < m"
    by (cases iters) auto
  from training_loop_calls_Suc[of R update shp m key params opt_state loss_history]
  obtain p1 o1 h1 where c1:
    "snd (training_loop R update shp (Suc m) (key, params, opt_state, loss_history))
       = Split key # Normal (split R key 2 0)
         # snd (training_loop R update shp m (split R key 2 0, p1, o1, h1))"
    by blast
  have sw: "((\<lambda>k. split R k 2 0) ^^ i) (split R key 2 0)
      = split R (((\<lambda>k. split R k 2 0) ^^ i) key) 2 0"
    using funpow_swap1[of "\<lambda>k. split R k 2 0" i key] by simp
  show ?case
    unfolding m c1
    using Suc.IH[OF lt, of "split R key 2 0" p1 o1 h1] by (simp add: sw)
qed

text \<open>
  C6. Each iteration of the training loop is meant to draw its latent batch from a fresh
  key that no other call consumes. The loop does not: in every iteration \<open>i\<close> that has a
  successor, the key given to \<open>jax.random.normal\<close> (call \<open>2 i + 1\<close> of the loop) is the
  carried key, and the next iteration gives the same key to \<open>jax.random.split\<close> (call
  \<open>2 i + 2\<close>). The key \<open>subkey\<close> that \<open>split\<close> returns for drawing is never used.
\<close>

theorem training_loop_draw_key_is_split_again:
  "Suc i < iters \<Longrightarrow>
     snd (training_loop R update shp iters (key, params, opt_state, loss_history)) ! (2 * i + 1)
       = Normal (((\<lambda>k. split R k 2 0) ^^ Suc i) key)
     \<and> snd (training_loop R update shp iters (key, params, opt_state, loss_history)) ! (2 * i + 2)
       = Split (((\<lambda>k. split R k 2 0) ^^ Suc i) key)"
  by (rule training_loop_calls_nth)

lemma example_training_calls:
  "snd (training_loop example_random example_update (2, 2, 2) 2
          (0, (), (), []))
     = [Split 0, Normal 1, Split 1, Normal 3]"
  by (simp add: numeral_2_eq_2 example_random_def example_update_def)

theorem training_loop_draw_key_is_split_again_witness:
  "snd (training_loop example_random example_update (2, 2, 2) 2
          (0, (), (), [])) ! (2 * 0 + 1) = Normal 1
   \<and> snd (training_loop example_random example_update (2, 2, 2) 2
          (0, (), (), [])) ! (2 * 0 + 2) = Split 1
   \<and> snd (training_loop example_random example_update (2, 2, 2) 2
          (0, (), (), [])) = [Split 0, Normal 1, Split 1, Normal 3]"
proof -
  have "Suc 0 < (2::nat)" by simp
  from training_loop_draw_key_is_split_again[OF this, of example_random
      example_update "(2, 2, 2)" 0 "()" "()" "[]"]
  show ?thesis
    using example_training_calls by (simp add: example_random_def)
qed


section \<open>The density of the flow and the variational objective\<close>

lemma norm_logpdf_density: "norm_logpdf v = ln (exp (- v\<^sup>2 / 2) / sqrt (2 * pi))"
proof -
  have "ln (exp (- v\<^sup>2 / 2) / sqrt (2 * pi)) = ln (exp (- v\<^sup>2 / 2)) - ln (sqrt (2 * pi))"
    by (simp add: ln_div)
  also have "\<dots> = - v\<^sup>2 / 2 - ln (2 * pi) / 2"
    by (simp add: ln_sqrt)
  finally show ?thesis
    by (simp add: norm_logpdf_def field_simps)
qed

lemma flow_flatten_shape2:
  assumes "has_shape n d z"
  shows "(case shape2 z of (n', d') \<Rightarrow> flow_flatten flow_apply params n' d')
       = flow_flatten flow_apply params n d"
proof (cases "n = 0")
  case True
  then show ?thesis
    using assms by (auto simp: shape2_has_shape flow_flatten_def reshape_flat_def fun_eq_iff)
next
  case False
  then show ?thesis
    using assms by (simp add: shape2_has_shape)
qed

lemma slogdet_square:
  "has_shape m m a \<Longrightarrow> slogdet a = Some (sgn (det a), ln \<bar>det a\<bar>)"
  by (simp add: slogdet_def has_shape_def)

text \<open>
  C2. For a latent sample \<open>z\<close> of shape \<open>(n, d)\<close> and any parameters, \<open>logp_novmap\<close>
  returns the tuple \<open>(logpx, logqz, logjacdet, x)\<close> in which \<open>x\<close> is the image of \<open>z\<close> under the
  flow, \<open>logqz\<close> is the sum over all \<open>n * d\<close> coordinates of the logarithm of the
  standard-normal density, \<open>logjacdet\<close> is the second component of \<open>slogdet\<close> of the
  \<open>(n * d) \<times> (n * d)\<close> matrix that \<open>jacfwd\<close> returns for the flattened map at the flattened
  \<open>z\<close>, that is the logarithm of the absolute value of its determinant, and
  \<open>logpx = logqz - logjacdet\<close>. (The matrix is taken nonsingular: the logarithm of 0 in the
  reals is not the \<open>-inf\<close> of the floats.)
\<close>

theorem logp_novmap_change_of_variables:
  assumes "has_shape n d z"
    and "flow_apply params z = Some x"
    and "jacfwd (flow_flatten flow_apply params n d) (flatten z) = Some jac"
    and "has_shape (n * d) (n * d) jac"
    and "det jac \<noteq> 0"
  shows "\<exists>logpx logqz logjacdet.
      logp_novmap flow_apply jacfwd z params = Some (logpx, logqz, logjacdet, x)
      \<and> length (flatten z) = n * d
      \<and> logqz = (\<Sum>c\<leftarrow>flatten z. ln (exp (- c\<^sup>2 / 2) / sqrt (2 * pi)))
      \<and> slogdet jac = Some (sgn (det jac), logjacdet)
      \<and> logjacdet = ln \<bar>det jac\<bar>
      \<and> logpx = logqz - logjacdet"
proof -
  obtain n' d' where s: "shape2 z = (n', d')"
    by (cases "shape2 z") auto
  with flow_flatten_shape2[OF assms(1), of flow_apply params]
  have ff: "flow_flatten flow_apply params n' d' = flow_flatten flow_apply params n d"
    by simp
  have "logp_novmap flow_apply jacfwd z params
      = Some ((\<Sum>c\<leftarrow>flatten z. norm_logpdf c) - ln \<bar>det jac\<bar>,
              (\<Sum>c\<leftarrow>flatten z. norm_logpdf c), ln \<bar>det jac\<bar>, x)"
    by (simp add: logp_novmap_def s ff assms(2,3) slogdet_square[OF assms(4)] Let_def)
  moreover have "(\<Sum>c\<leftarrow>flatten z. norm_logpdf c)
      = (\<Sum>c\<leftarrow>flatten z. ln (exp (- c\<^sup>2 / 2) / sqrt (2 * pi)))"
    by (simp add: norm_logpdf_density)
  moreover have "length (flatten z) = n * d"
    using assms(1) by (simp add: flatten_def length_concat_shape)
  ultimately show ?thesis
    by (simp add: slogdet_square[OF assms(4)])
qed

lemma example_jac:
  "linear_jacfwd (flow_flatten example_flow 2 2 2) (flatten [[0, 0], [3, 4]])
     = Some [[2, 0, 0, 0], [0, 2, 0, 0], [0, 0, 2, 0], [0, 0, 0, 2]]"
  by (simp add: linear_jacfwd_def flow_flatten_def example_flow_def reshape_flat_def flatten_def
      unit_vector_def upt_conv_Cons numeral_2_eq_2)

lemma example_det: "det [[2, 0, 0, 0], [0, 2, 0, 0], [0, 0, 2, 0], [0, 0, 0, 2]] = 16"
  by (simp add: upt_conv_Cons)

lemma example_flow_shape: "has_shape 2 2 [[0, 0], [3, 4::real]]"
  by (simp add: has_shape_def)

lemma example_jac_shape:
  "has_shape (2 * 2) (2 * 2) [[2, 0, 0, 0], [0, 2, 0, 0], [0, 0, 2, 0], [0, 0, 0, 2::real]]"
  by (simp add: has_shape_def)

lemma example_logp_novmap:
  "logp_novmap example_flow linear_jacfwd [[0, 0], [3, 4]] 2
     = Some (- (4 * ln (2 * pi) + 25) / 2 - ln 16, - (4 * ln (2 * pi) + 25) / 2, ln 16,
             [[0, 0], [6, 8]])"
proof -
  have "shape2 [[0, 0], [3, 4::real]] = (2, 2)"
    by (simp add: shape2_def)
  moreover have "example_flow 2 [[0, 0], [3, 4]] = Some [[0, 0], [6, 8]]"
    by (simp add: example_flow_def)
  moreover have "(\<Sum>c\<leftarrow>flatten [[0, 0], [3, 4::real]]. norm_logpdf c) = - (4 * ln (2 * pi) + 25) / 2"
    by (simp add: flatten_def norm_logpdf_def field_simps)
  moreover have "slogdet [[2, 0, 0, 0], [0, 2, 0, 0], [0, 0, 2, 0], [0, 0, 0, 2]] = Some (1, ln 16)"
    by (simp add: slogdet_def example_det)
  ultimately show ?thesis
    by (simp add: logp_novmap_def example_jac Let_def)
qed

theorem logp_novmap_change_of_variables_witness:
  "has_shape 2 2 [[0, 0], [3, 4::real]]
   \<and> example_flow 2 [[0, 0], [3, 4]] = Some [[0, 0], [6, 8]]
   \<and> det [[2, 0, 0, 0], [0, 2, 0, 0], [0, 0, 2, 0], [0, 0, 0, 2]] = 16
   \<and> (\<exists>logpx logqz logjacdet.
        logp_novmap example_flow linear_jacfwd [[0, 0], [3, 4]] 2
          = Some (logpx, logqz, logjacdet, [[0, 0], [6, 8]])
        \<and> logqz = - (4 * ln (2 * pi) + 25) / 2
        \<and> logjacdet = ln 16
        \<and> logpx = logqz - logjacdet)"
proof -
  have fl: "example_flow 2 [[0, 0], [3, 4]] = Some [[0, 0], [6, 8]]"
    by (simp add: example_flow_def)
  have nz: "det [[2, 0, 0, 0], [0, 2, 0, 0], [0, 0, 2, 0], [0, 0, 0, 2]] \<noteq> 0"
    by (simp add: example_det)
  from logp_novmap_change_of_variables[where flow_apply = example_flow
      and jacfwd = linear_jacfwd and n = 2 and d = 2 and z = "[[0, 0], [3, 4]]" and params = 2,
      OF example_flow_shape fl example_jac example_jac_shape nz]
  obtain logpx logqz logjacdet where
    "logp_novmap example_flow linear_jacfwd [[0, 0], [3, 4]] 2
       = Some (logpx, logqz, logjacdet, [[0, 0], [6, 8]])"
    "logpx = logqz - logjacdet"
    by blast
  then show ?thesis
    using example_logp_novmap example_flow_shape fl example_det by simp
qed


lemma logp_novmap_Some:
  assumes "logp_novmap flow_apply jacfwd zb params = Some (a, q, j, x)"
  shows "a = q - j \<and> q = (\<Sum>c\<leftarrow>flatten zb. norm_logpdf c)"
  using assms
  by (auto simp: logp_novmap_def Let_def split: prod.splits Option.bind_splits)

lemma logp_flow_Some:
  assumes "logp_flow flow_apply jacfwd z params = Some (logpx, logqz, logjacdet, x)"
  shows "length logpx = length z \<and> length logqz = length z \<and> length logjacdet = length z
    \<and> length x = length z
    \<and> logqz = map (\<lambda>zb. \<Sum>c\<leftarrow>flatten zb. norm_logpdf c) z
    \<and> logpx = map2 (-) logqz logjacdet"
proof -
  from assms obtain rs where rs: "vmap (\<lambda>zb. logp_novmap flow_apply jacfwd zb params) z = Some rs"
    and px: "logpx = map (\<lambda>(logpx, logqz, logjacdet, x). logpx) rs"
    and qz: "logqz = map (\<lambda>(logpx, logqz, logjacdet, x). logqz) rs"
    and jd: "logjacdet = map (\<lambda>(logpx, logqz, logjacdet, x). logjacdet) rs"
    and xx: "x = map (\<lambda>(logpx, logqz, logjacdet, x). x) rs"
    by (auto simp: logp_flow_def split: Option.bind_splits)
  from rs have len: "length rs = length z"
    and nth: "\<And>i. i < length z \<Longrightarrow> logp_novmap flow_apply jacfwd (z ! i) params = Some (rs ! i)"
    by (auto simp: vmap_Some_iff)
  have each: "(case rs ! i of (a, q, j, x) \<Rightarrow> a = q - j \<and> q = (\<Sum>c\<leftarrow>flatten (z ! i). norm_logpdf c))"
    if "i < length z" for i
    using nth[OF that] logp_novmap_Some[of flow_apply jacfwd "z ! i" params]
    by (cases "rs ! i") auto
  have "logqz ! i = (\<Sum>c\<leftarrow>flatten (z ! i). norm_logpdf c)" if "i < length z" for i
    using each[OF that] len that by (cases "rs ! i") (simp add: qz)
  then have "logqz = map (\<lambda>zb. \<Sum>c\<leftarrow>flatten zb. norm_logpdf c) z"
    using len by (simp add: list_eq_iff_nth_eq qz)
  moreover have "logpx ! i = logqz ! i - logjacdet ! i" if "i < length z" for i
    using each[OF that] len that by (cases "rs ! i") (simp add: px qz jd)
  then have "logpx = map2 (-) logqz logjacdet"
    using len by (simp add: list_eq_iff_nth_eq px qz jd)
  ultimately show ?thesis
    using len by (simp add: px qz jd xx)
qed

lemma batch_energy_length: "batch_energy x n d = Some Eloc \<Longrightarrow> length Eloc = length x"
  by (simp add: batch_energy_def vmap_Some_iff)

lemma mean_diff:
  assumes "length as = length bs"
  shows "mean as - mean bs = mean (map2 (-) as bs)"
proof -
  have "sum_list (map2 (-) as bs) = sum_list as - sum_list bs"
    using assms by (induction as bs rule: list_induct2) simp_all
  then have "sum_list (map2 (-) as bs) / real (length bs)
      = sum_list as / real (length bs) - sum_list bs / real (length bs)"
    by (simp only: diff_divide_distrib)
  then show ?thesis
    using assms by (simp add: mean_def)
qed

lemma mean_divide: "mean (map (\<lambda>v. v / c) as) = mean as / c"
proof -
  have "sum_list (map (\<lambda>v. v / c) as) = sum_list as / c"
    by (induction as) (simp_all add: add_divide_distrib)
  then show ?thesis
    by (simp add: mean_def)
qed

lemma objective_difference:
  assumes "length logqz = B" "length logjacdet = B" "length Eloc = B"
  shows "mean (map2 (\<lambda>p e. p / beta + e) (map2 (-) logqz logjacdet) Eloc)
       - mean (map2 (\<lambda>j e. - j / beta + e) logjacdet Eloc) = mean logqz / beta"
proof -
  have "map2 (-) (map2 (\<lambda>p e. p / beta + e) (map2 (-) logqz logjacdet) Eloc)
          (map2 (\<lambda>j e. - j / beta + e) logjacdet Eloc)
      = map (\<lambda>v. v / beta) logqz"
    using assms by (auto simp: list_eq_iff_nth_eq diff_divide_distrib)
  then show ?thesis
    using assms mean_diff[of "map2 (\<lambda>p e. p / beta + e) (map2 (-) logqz logjacdet) Eloc"
        "map2 (\<lambda>j e. - j / beta + e) logjacdet Eloc"]
    by (simp add: mean_divide)
qed

text \<open>
  C4. From the one evaluation \<open>(logpx, logqz, logjacdet, x)\<close> of the batch and the one
  vector \<open>Eloc\<close> of energies, \<open>observable_and_lossfn\<close> returns the objective
  \<open>mean (- logjacdet / beta + Eloc)\<close> and statistics computed from
  \<open>Floc = logpx / beta + Eloc\<close>. Since \<open>logpx = logqz - logjacdet\<close>, the mean of \<open>Floc\<close> exceeds
  the objective by exactly \<open>mean logqz / beta\<close>, where \<open>logqz\<close> is a function of the latent
  batch alone and of no parameter. The statement is for the inputs on which every
  quantity is finite: a batch that is not empty, \<open>beta\<close> not zero, no two particles of a
  produced configuration at the same position, and every Jacobian nonsingular. Outside
  them the floats are infinite or \<open>nan\<close>, which the real numbers do not model.
\<close>

theorem objective_is_reduced_form_of_free_energy:
  assumes "logp_flow flow_apply jacfwd z params = Some (logpx, logqz, logjacdet, x)"
    and "batch_energy x n d = Some Eloc"
    and "z \<noteq> []" and "0 < batch" and "beta \<noteq> 0"
    and "list_all (has_shape n d) x"
    and "\<forall>c\<in>set x. \<forall>i j. i < j \<and> j < n \<longrightarrow> euclid (c ! i) (c ! j) \<noteq> 0"
    and "\<forall>zb\<in>set z. \<exists>jac.
           jacfwd (flow_flatten flow_apply params (fst (shape2 zb)) (snd (shape2 zb))) (flatten zb)
             = Some jac
           \<and> det jac \<noteq> 0"
  shows "\<exists>obs.
      observable_and_lossfn (logp_flow flow_apply jacfwd) batch n d beta params z
        = Some (mean (map2 (\<lambda>j e. - j / beta + e) logjacdet Eloc), obs)
      \<and> F_mean obs = mean (map2 (\<lambda>p e. p / beta + e) logpx Eloc)
      \<and> F_std obs = std (map2 (\<lambda>p e. p / beta + e) logpx Eloc) / sqrt (real batch)
      \<and> x_out obs = x
      \<and> length logpx = length z \<and> length logjacdet = length z \<and> length Eloc = length z
      \<and> logqz = map (\<lambda>zb. \<Sum>c\<leftarrow>flatten zb. norm_logpdf c) z
      \<and> logpx = map2 (-) logqz logjacdet
      \<and> F_mean obs - mean (map2 (\<lambda>j e. - j / beta + e) logjacdet Eloc) = mean logqz / beta"
proof -
  note f = logp_flow_Some[OF assms(1)]
  have le: "length Eloc = length z"
    using batch_energy_length[OF assms(2)] f by simp
  have "mean (map2 (\<lambda>p e. p / beta + e) logpx Eloc)
       - mean (map2 (\<lambda>j e. - j / beta + e) logjacdet Eloc) = mean logqz / beta"
    using objective_difference[of logqz "length z" logjacdet Eloc beta] f le by simp
  then show ?thesis
    using f le by (simp add: observable_and_lossfn_def assms(1,2) Let_def)
qed


lemma sqrt_100: "sqrt 100 = 10"
  using real_sqrt_abs[of 10] by simp

lemma sqrt_4: "sqrt 4 = 2"
  using real_sqrt_abs[of 2] by simp

lemma example_jac2:
  "linear_jacfwd (flow_flatten example_flow 2 2 2) (flatten [[0, 0], [0, 1]])
     = Some [[2, 0, 0, 0], [0, 2, 0, 0], [0, 0, 2, 0], [0, 0, 0, 2]]"
  by (simp add: linear_jacfwd_def flow_flatten_def example_flow_def reshape_flat_def flatten_def
      unit_vector_def upt_conv_Cons numeral_2_eq_2)

lemma example_logp_novmap2:
  "logp_novmap example_flow linear_jacfwd [[0, 0], [0, 1]] 2
     = Some (- (4 * ln (2 * pi) + 1) / 2 - ln 16, - (4 * ln (2 * pi) + 1) / 2, ln 16,
             [[0, 0], [0, 2]])"
proof -
  have "shape2 [[0, 0], [0, 1::real]] = (2, 2)"
    by (simp add: shape2_def)
  moreover have "example_flow 2 [[0, 0], [0, 1]] = Some [[0, 0], [0, 2]]"
    by (simp add: example_flow_def)
  moreover have "(\<Sum>c\<leftarrow>flatten [[0, 0], [0, 1::real]]. norm_logpdf c) = - (4 * ln (2 * pi) + 1) / 2"
    by (simp add: flatten_def norm_logpdf_def field_simps)
  moreover have "slogdet [[2, 0, 0, 0], [0, 2, 0, 0], [0, 0, 2, 0], [0, 0, 0, 2]] = Some (1, ln 16)"
    by (simp add: slogdet_def example_det)
  ultimately show ?thesis
    by (simp add: logp_novmap_def example_jac2 Let_def)
qed

lemma example_logp_flow:
  "logp_flow example_flow linear_jacfwd example_latent 2
     = Some ([- (4 * ln (2 * pi) + 25) / 2 - ln 16, - (4 * ln (2 * pi) + 1) / 2 - ln 16],
             [- (4 * ln (2 * pi) + 25) / 2, - (4 * ln (2 * pi) + 1) / 2],
             [ln 16, ln 16],
             [[[0, 0], [6, 8]], [[0, 0], [0, 2]]])"
  by (simp add: logp_flow_def example_latent_def example_logp_novmap example_logp_novmap2)

lemma example_batch_energy:
  "batch_energy [[[0, 0], [6, 8]], [[0, 0], [0, 2]]] 2 2 = Some [1001 / 10, 9 / 2]"
  by (simp add: batch_energy_def energy_fn_def reshape_def reshape_flat_def flatten_def
      triu_indices_def pair_diff_def norm_last_def numeral_2_eq_2 sqrt_100 sqrt_4)

lemma example_latent_nonsingular:
  "\<forall>zb\<in>set example_latent. \<exists>jac.
     linear_jacfwd (flow_flatten example_flow 2 (fst (shape2 zb)) (snd (shape2 zb))) (flatten zb)
       = Some jac
     \<and> det jac \<noteq> 0"
proof -
  have "shape2 [[0, 0], [3, 4::real]] = (2, 2)" "shape2 [[0, 0], [0, 1::real]] = (2, 2)"
    by (simp_all add: shape2_def)
  then show ?thesis
    by (simp add: example_latent_def example_jac example_jac2 example_det)
qed

lemma example_output_distances:
  "\<forall>c\<in>set [[[0, 0], [6, 8]], [[0, 0], [0, 2::real]]].
     \<forall>i j. i < j \<and> j < 2 \<longrightarrow> euclid (c ! i) (c ! j) \<noteq> 0"
proof (intro ballI allI impI)
  fix c :: configuration and i j :: nat
  assume c: "c \<in> set [[[0, 0], [6, 8]], [[0, 0], [0, 2::real]]]" and "i < j \<and> j < 2"
  then have ij: "i = 0" "j = 1"
    by linarith+
  from c consider "c = [[0, 0], [6, 8]]" | "c = [[0, 0], [0, 2]]"
    by auto
  then show "euclid (c ! i) (c ! j) \<noteq> 0"
    by cases (simp_all add: ij euclid_def lessThan_Suc numeral_2_eq_2 sqrt_100 sqrt_4)
qed

theorem objective_is_reduced_form_of_free_energy_witness:
  "logp_flow example_flow linear_jacfwd example_latent 2
     = Some ([- (4 * ln (2 * pi) + 25) / 2 - ln 16, - (4 * ln (2 * pi) + 1) / 2 - ln 16],
             [- (4 * ln (2 * pi) + 25) / 2, - (4 * ln (2 * pi) + 1) / 2],
             [ln 16, ln 16],
             [[[0, 0], [6, 8]], [[0, 0], [0, 2]]])
   \<and> batch_energy [[[0, 0], [6, 8]], [[0, 0], [0, 2]]] 2 2 = Some [1001 / 10, 9 / 2]
   \<and> euclid [0, 0] [6, 8] = 10 \<and> euclid [0, 0] [0, 2] = 2
   \<and> det [[2, 0, 0, 0], [0, 2, 0, 0], [0, 0, 2, 0], [0, 0, 0, 2]] = 16
   \<and> (\<exists>obs.
        observable_and_lossfn (logp_flow example_flow linear_jacfwd) 2 2 2 2 2 example_latent
          = Some (mean [- ln 16 / 2 + 1001 / 10, - ln 16 / 2 + 9 / 2], obs)
        \<and> F_mean obs - mean [- ln 16 / 2 + 1001 / 10, - ln 16 / 2 + 9 / 2]
          = mean [- (4 * ln (2 * pi) + 25) / 2, - (4 * ln (2 * pi) + 1) / 2] / 2)"
proof -
  have ne: "example_latent \<noteq> []"
    by (simp add: example_latent_def)
  have pos: "0 < (2::nat)" and b: "(2::real) \<noteq> 0"
    by simp_all
  have sh: "list_all (has_shape 2 2) [[[0, 0], [6, 8]], [[0, 0], [0, 2::real]]]"
    by (simp add: has_shape_def)
  have eu: "euclid [0, 0] [6, 8] = 10 \<and> euclid [0, 0] [0, 2] = 2"
    by (simp add: euclid_def lessThan_Suc numeral_2_eq_2 sqrt_100 sqrt_4)
  from objective_is_reduced_form_of_free_energy[OF example_logp_flow example_batch_energy
      ne pos b sh example_output_distances example_latent_nonsingular]
  obtain obs where
    "observable_and_lossfn (logp_flow example_flow linear_jacfwd) 2 2 2 2 2 example_latent
       = Some (mean (map2 (\<lambda>j e. - j / 2 + e) [ln 16, ln 16] [1001 / 10, 9 / 2]), obs)"
    "F_mean obs - mean (map2 (\<lambda>j e. - j / 2 + e) [ln 16, ln 16] [1001 / 10, 9 / 2])
       = mean [- (4 * ln (2 * pi) + 25) / 2, - (4 * ln (2 * pi) + 1) / 2] / 2"
    by blast
  then have "\<exists>obs.
        observable_and_lossfn (logp_flow example_flow linear_jacfwd) 2 2 2 2 2 example_latent
          = Some (mean [- ln 16 / 2 + 1001 / 10, - ln 16 / 2 + 9 / 2], obs)
        \<and> F_mean obs - mean [- ln 16 / 2 + 1001 / 10, - ln 16 / 2 + 9 / 2]
          = mean [- (4 * ln (2 * pi) + 25) / 2, - (4 * ln (2 * pi) + 1) / 2] / 2"
    by (intro exI[of _ obs]) simp
  then show ?thesis
    using example_logp_flow example_batch_energy eu example_det by blast
qed




section \<open>The energy of coincident particles\<close>

lemma ieee_sum_Finite: "ieee_sum (map Finite vs) = Finite (sum_list vs)"
  by (induction vs) simp_all

lemma ieee_sum_squares: "ieee_sum (map ieee_square (map Finite vs)) = Finite (\<Sum>v\<leftarrow>vs. v\<^sup>2)"
  by (induction vs) simp_all

lemma map2_ieee_sub:
  "map2 ieee_sub (map Finite a) (map Finite b) = map Finite (map2 (-) a b)"
proof (induction a arbitrary: b)
  case Nil
  show ?case by simp
next
  case (Cons v a)
  then show ?case by (cases b) (simp_all add: ieee_sub_def)
qed

lemma norm_last_squares: "norm_last v = sqrt (\<Sum>c\<leftarrow>v. c\<^sup>2)"
  by (simp add: norm_last_def)

lemma ieee_norm_last_Finite:
  "ieee_norm_last (map2 ieee_sub (map Finite a) (map Finite b)) = Finite (norm_last (map2 (-) a b))"
proof -
  have nn: "0 \<le> (\<Sum>v\<leftarrow>map2 (-) a b. v\<^sup>2)"
    by (rule sum_list_nonneg) auto
  have "ieee_norm_last (map2 ieee_sub (map Finite a) (map Finite b))
      = ieee_sqrt (Finite (\<Sum>v\<leftarrow>map2 (-) a b. v\<^sup>2))"
    by (simp only: ieee_norm_last_def map2_ieee_sub ieee_sum_squares)
  also have "\<dots> = Finite (sqrt (\<Sum>v\<leftarrow>map2 (-) a b. v\<^sup>2))"
    using nn by (simp only: ieee_sqrt.simps if_True)
  finally show ?thesis
    by (simp only: norm_last_squares)
qed

lemma ieee_sum_reciprocals:
  "ieee_sum (map (\<lambda>p. ieee_div (Finite 1) (Finite (g p))) ps)
     = (if \<exists>p\<in>set ps. g p = 0 then PInf else Finite (\<Sum>p\<leftarrow>ps. 1 / g p))"
  by (induction ps) auto

lemma has_shape_map_Finite: "has_shape n d x \<Longrightarrow> has_shape n d (map (map Finite) x)"
  by (simp add: has_shape_iff)

lemma ieee_pair_diff_nth:
  "i < length xr \<Longrightarrow> j < length xr \<Longrightarrow>
     ieee_pair_diff xr ! i ! j = map2 ieee_sub (xr ! i) (xr ! j)"
  by (simp add: ieee_pair_diff_def)

lemma energy_fn_ieee_Finite:
  assumes "has_shape n d x"
  shows "energy_fn_ieee (map (map Finite) x) n d =
    Some (if \<exists>(i, j)\<in>set (triu_indices n). euclid (x ! i) (x ! j) = 0 then PInf
          else Finite ((\<Sum>r\<leftarrow>x. \<Sum>c\<leftarrow>r. c\<^sup>2)
                 + (\<Sum>(i, j)\<leftarrow>triu_indices n. 1 / euclid (x ! i) (x ! j))))"
proof -
  have len: "length x = n" using assms by (simp add: has_shape_def)
  have "ieee_norm_last (ieee_pair_diff (map (map Finite) x) ! i ! j) = Finite (euclid (x ! i) (x ! j))"
    if "(i, j) \<in> set (triu_indices n)" for i j
  proof -
    from that have "i < n" "j < n" by (auto simp: set_triu_indices)
    then show ?thesis
      using assms len
      by (simp add: ieee_pair_diff_nth ieee_norm_last_Finite norm_last_diff has_shape_nth)
  qed
  then have "map (\<lambda>r. ieee_div (Finite 1) r)
        (map (\<lambda>(i, j). ieee_norm_last (ieee_pair_diff (map (map Finite) x) ! i ! j)) (triu_indices n))
      = map (\<lambda>p. ieee_div (Finite 1) (Finite (case p of (i, j) \<Rightarrow> euclid (x ! i) (x ! j))))
          (triu_indices n)"
    unfolding map_map by (intro map_cong) auto
  then have rc: "ieee_sum (map (\<lambda>r. ieee_div (Finite 1) r)
        (map (\<lambda>(i, j). ieee_norm_last (ieee_pair_diff (map (map Finite) x) ! i ! j)) (triu_indices n)))
      = (if \<exists>p\<in>set (triu_indices n). (case p of (i, j) \<Rightarrow> euclid (x ! i) (x ! j)) = 0 then PInf
         else Finite (\<Sum>p\<leftarrow>triu_indices n. 1 / (case p of (i, j) \<Rightarrow> euclid (x ! i) (x ! j))))"
    by (simp only: ieee_sum_reciprocals)
  have "flatten (map (map Finite) x) = map Finite (flatten x)"
    by (simp add: flatten_def map_concat)
  then have sq: "ieee_sum (map ieee_square (flatten (map (map Finite) x)))
      = Finite (\<Sum>r\<leftarrow>x. \<Sum>c\<leftarrow>r. c\<^sup>2)"
    by (simp only: ieee_sum_squares sum_squares_flatten)
  show ?thesis
    unfolding energy_fn_ieee_def Let_def reshape_id[OF has_shape_map_Finite[OF assms]]
      Option.bind.bind_lunit sq rc
    by (auto simp: case_prod_unfold)
qed

lemma energy_fn_ieee_agrees:
  assumes "has_shape n d x"
    and "\<forall>i j. i < j \<and> j < n \<longrightarrow> euclid (x ! i) (x ! j) \<noteq> 0"
  shows "energy_fn_ieee (map (map Finite) x) n d = map_option Finite (energy_fn x n d)"
proof -
  have "\<not> (\<exists>(i, j)\<in>set (triu_indices n). euclid (x ! i) (x ! j) = 0)"
    using assms(2) by (auto simp: set_triu_indices)
  then show ?thesis
    by (simp only: energy_fn_ieee_Finite[OF assms(1)] energy_fn_list[OF assms(1)] if_False
        option.map)
qed

lemma energy_fn_ieee_returns:
  "has_shape n d y \<Longrightarrow> \<exists>v. energy_fn_ieee y n d = Some v"
  by (simp add: energy_fn_ieee_def reshape_id)

text \<open>
  C9. With the special values of IEEE 754 (division of a positive number by zero is
  \<open>+inf\<close>, and \<open>+inf\<close> plus a finite number is \<open>+inf\<close>), evaluating the energy of a
  configuration with two coincident particles raises nothing and returns \<open>+inf\<close>: the
  infinite reciprocal distance of the coincident pair reaches the result, no step clamps
  or replaces it. This holds for every well-shaped configuration of finite coordinates
  with at least one pair at distance zero; and for every well-shaped array of floats,
  finite or not, \<open>energy_fn\<close> returns a value.
\<close>

theorem energy_fn_ieee_coincident_is_infinite:
  assumes "has_shape n d x" and "i < j" and "j < n" and "euclid (x ! i) (x ! j) = 0"
  shows "energy_fn_ieee (map (map Finite) x) n d = Some PInf
    \<and> (\<forall>y. has_shape n d y \<longrightarrow> (\<exists>v. energy_fn_ieee y n d = Some v))"
proof -
  have "(i, j) \<in> set (triu_indices n)"
    using assms(2,3) by (simp add: set_triu_indices)
  with assms(4) have "\<exists>(i, j)\<in>set (triu_indices n). euclid (x ! i) (x ! j) = 0"
    by blast
  then have "energy_fn_ieee (map (map Finite) x) n d = Some PInf"
    by (simp only: energy_fn_ieee_Finite[OF assms(1)] if_True)
  then show ?thesis
    using energy_fn_ieee_returns by blast
qed

lemma example_coincident:
  "energy_fn_ieee [[Finite 1, Finite 2], [Finite 1, Finite 2]] 2 2 = Some PInf"
  by (simp add: energy_fn_ieee_def reshape_def reshape_flat_def flatten_def triu_indices_def
      ieee_pair_diff_def ieee_norm_last_def ieee_sub_def numeral_2_eq_2)

theorem energy_fn_ieee_coincident_is_infinite_witness:
  "has_shape 2 2 [[1, 2], [1, 2::real]]
   \<and> euclid ([[1, 2], [1, 2]] ! 0) ([[1, 2], [1, 2]] ! 1) = 0
   \<and> energy_fn_ieee [[Finite 1, Finite 2], [Finite 1, Finite 2]] 2 2 = Some PInf"
proof -
  have sh: "has_shape 2 2 [[1, 2], [1, 2::real]]"
    by (simp add: has_shape_def)
  have e: "euclid ([[1, 2], [1, 2]] ! 0) ([[1, 2], [1, 2]] ! 1) = 0"
    by (simp add: euclid_def)
  have "(0::nat) < 1" "(1::nat) < 2"
    by simp_all
  from energy_fn_ieee_coincident_is_infinite[OF sh this e]
  show ?thesis
    using sh e by simp
qed


end
